theory Spec2Isabelle
  imports Complex_Main
begin

section \<open>Colour conversion utilities of the chromaticity colour picker\<close>

text \<open>
  This theory embeds \<^verbatim>\<open>src/utils/colorConversions.ts\<close>. Every function of that file
  is a pure function on small records of numbers. \<^verbatim>\<open>RGBToHSL\<close> and the constant
  polygons of the file are left out: no property below is about them.

  Numbers. A TypeScript \<^verbatim>\<open>number\<close> is an IEEE-754 double (binary64). The embedding
  reads it in two ways.

  The chromaticity transforms \<^verbatim>\<open>XYZToxyY\<close> and \<^verbatim>\<open>xyYToXYZ\<close> and the polar
  transform \<^verbatim>\<open>LABToOKLCH\<close> are embedded in binary64: every arithmetic operation of
  the source is the exact operation on the reals followed by \<open>to_double\<close>, the rounding
  to the nearest double, ties to even, with gradual underflow. What is stated about these
  three functions depends on the rounding: a sum of two quotients compared with 1, a sum
  compared with 360, a difference that cancels.

  Every other function is idealised over the reals: \<^verbatim>\<open>+\<close>, \<^verbatim>\<open>-\<close>, \<^verbatim>\<open>*\<close> are
  the exact operations, and so is \<^verbatim>\<open>/\<close> wherever the divisor is a non-zero literal.
  The only division of the file whose divisor can be zero without a guard (in
  \<^verbatim>\<open>getColorTemperature\<close>) goes through \<open>js_div\<close>, which returns \<open>None\<close> where
  the double result is not finite.

  In both readings overflow, \<^verbatim>\<open>NaN\<close>, the infinities and the negative zero are
  outside the model: \<open>to_double\<close> has no largest value, and every input is taken to
  be a finite number.

  Records. The interfaces of the source reuse the field names \<^verbatim>\<open>x\<close>, \<^verbatim>\<open>y\<close>,
  \<^verbatim>\<open>b\<close> and \<^verbatim>\<open>l\<close>; the record fields below carry the name of their interface as
  a prefix (\<open>xyz_x\<close> is the field \<^verbatim>\<open>x\<close> of \<^verbatim>\<open>XYZColor\<close>).
\<close>

subsection \<open>Data model\<close>

record XYZColor =
  xyz_x :: real
  xyz_y :: real
  xyz_z :: real

record xyColor =
  xy_x :: real
  xy_y :: real
  xy_Y :: real

record RGBColor =
  rgb_r :: real
  rgb_g :: real
  rgb_b :: real

record LABColor =
  lab_l :: real
  lab_a :: real
  lab_b :: real

record OKLCHColor =
  oklch_l :: real
  oklch_c :: real
  oklch_h :: real

text \<open>The string-literal union \<^verbatim>\<open>'sRGB' | 'P3' | 'Rec2020' | 'XYZ' | 'LAB' | 'OKLCH'\<close>.\<close>

datatype ColorSpace = sRGB | P3 | Rec2020 | XYZ | LAB | OKLCH

subsection \<open>The matrices\<close>

text \<open>
  A \<^verbatim>\<open>number[][]\<close> is a list of rows; \<^verbatim>\<open>matrix[i][j]\<close> is \<open>matrix ! i ! j\<close>. Every
  matrix of the source is a 3 by 3 literal and every index a literal below 3, so no read
  is out of range.
\<close>

definition sRGB_MATRIX :: "real list list" where
  "sRGB_MATRIX =
     [[3.2406, -1.5372, -0.4986],
      [-0.9689, 1.8758, 0.0415],
      [0.0557, -0.2040, 1.0570]]"

definition P3_MATRIX :: "real list list" where
  "P3_MATRIX =
     [[2.4934, -0.9313, -0.4027],
      [-0.8295, 1.7627, 0.0236],
      [0.0358, -0.0761, 0.9569]]"

definition REC2020_MATRIX :: "real list list" where
  "REC2020_MATRIX =
     [[1.7167, -0.3557, -0.2534],
      [-0.6667, 1.6165, 0.0158],
      [0.0176, -0.0428, 0.9421]]"

text \<open>The matrix literals inside the \<^verbatim>\<open>switch\<close> of \<^verbatim>\<open>RGBToXYZ\<close>.\<close>

definition RGBToXYZ_matrix :: "ColorSpace \<Rightarrow> real list list" where
  "RGBToXYZ_matrix colorSpace =
     (case colorSpace of
        P3 \<Rightarrow>
          [[0.4865, 0.2657, 0.1982],
           [0.2290, 0.6917, 0.0793],
           [0.0000, 0.0451, 1.0439]]
      | Rec2020 \<Rightarrow>
          [[0.6370, 0.1446, 0.1689],
           [0.2627, 0.6780, 0.0593],
           [0.0000, 0.0281, 1.0609]]
      | _ \<Rightarrow>
          [[0.4124, 0.3576, 0.1805],
           [0.2126, 0.7152, 0.0722],
           [0.0193, 0.1192, 0.9505]])"

text \<open>The \<^verbatim>\<open>switch\<close> of \<^verbatim>\<open>XYZToRGB\<close>.\<close>

definition XYZToRGB_matrix :: "ColorSpace \<Rightarrow> real list list" where
  "XYZToRGB_matrix colorSpace =
     (case colorSpace of
        P3 \<Rightarrow> P3_MATRIX
      | Rec2020 \<Rightarrow> REC2020_MATRIX
      | _ \<Rightarrow> sRGB_MATRIX)"

subsection \<open>Binary64 arithmetic\<close>

text \<open>
  Rounding to the nearest integer, ties to the even one.
\<close>

definition round_ties_even :: "real \<Rightarrow> int" where
  "round_ties_even y =
     (let f = \<lfloor>y\<rfloor> in
      if y - of_int f < 1 / 2 then f
      else if 1 / 2 < y - of_int f then f + 1
      else if even f then f else f + 1)"

text \<open>
  A double has a significand of 53 bits. For \<open>x\<close> between \<open>2\<^sup>k\<close> and \<open>2\<^sup>k\<^sup>+\<^sup>1\<close> the
  doubles are the multiples of \<open>2\<^sup>k\<^sup>-\<^sup>5\<^sup>2\<close>; below \<open>2\<^sup>-\<^sup>1\<^sup>0\<^sup>2\<^sup>2\<close> (the subnormal range)
  they are the multiples of \<open>2\<^sup>-\<^sup>1\<^sup>0\<^sup>7\<^sup>4\<close>. \<open>to_double x\<close> is the multiple nearest to
  \<open>x\<close>, ties to the even multiple: the result of every IEEE-754 operation in the
  default rounding mode, as long as it does not overflow.
\<close>

definition ulp_exponent :: "real \<Rightarrow> int" where
  "ulp_exponent x = max (\<lfloor>log 2 \<bar>x\<bar>\<rfloor> - 52) (- 1074)"

definition to_double :: "real \<Rightarrow> real" where
  "to_double x =
     (if x = 0 then 0
      else of_int (round_ties_even (x / 2 powi ulp_exponent x)) * 2 powi ulp_exponent x)"

text \<open>The real numbers that are (finite) doubles.\<close>

definition is_double :: "real \<Rightarrow> bool" where
  "is_double x \<longleftrightarrow> to_double x = x \<and> \<bar>x\<bar> < 2 ^ 1024"

text \<open>The four operations \<^verbatim>\<open>+\<close>, \<^verbatim>\<open>-\<close>, \<^verbatim>\<open>*\<close>, \<^verbatim>\<open>/\<close> on doubles.\<close>

definition double_add :: "real \<Rightarrow> real \<Rightarrow> real" where
  "double_add a b = to_double (a + b)"

definition double_sub :: "real \<Rightarrow> real \<Rightarrow> real" where
  "double_sub a b = to_double (a - b)"

definition double_mul :: "real \<Rightarrow> real \<Rightarrow> real" where
  "double_mul a b = to_double (a * b)"

definition double_div :: "real \<Rightarrow> real \<Rightarrow> real" where
  "double_div a b = to_double (a / b)"

subsection \<open>XYZ and xyY\<close>

text \<open>
  In binary64, operation by operation: \<^verbatim>\<open>xyz.x + xyz.y + xyz.z\<close> is two additions,
  from the left; \<^verbatim>\<open>(1 - xyY.x - xyY.y) * Y\<close> is two subtractions, from the left, and
  a product. Both divisors are guarded against zero by the source.
\<close>

definition XYZToxyY :: "XYZColor \<Rightarrow> xyColor" where
  "XYZToxyY xyz =
     (let sum = double_add (double_add (xyz_x xyz) (xyz_y xyz)) (xyz_z xyz) in
      if sum = 0 then \<lparr>xy_x = 0, xy_y = 0, xy_Y = 0\<rparr>
      else \<lparr>xy_x = double_div (xyz_x xyz) sum, xy_y = double_div (xyz_y xyz) sum,
             xy_Y = xyz_y xyz\<rparr>)"

definition xyYToXYZ :: "xyColor \<Rightarrow> XYZColor" where
  "xyYToXYZ xyY =
     (if xy_y xyY = 0 then \<lparr>xyz_x = 0, xyz_y = 0, xyz_z = 0\<rparr>
      else
        let Y = xy_Y xyY;
            x = double_div (double_mul (xy_x xyY) Y) (xy_y xyY);
            z = double_div
                  (double_mul (double_sub (double_sub 1 (xy_x xyY)) (xy_y xyY)) Y) (xy_y xyY)
        in \<lparr>xyz_x = x, xyz_y = Y, xyz_z = z\<rparr>)"

subsection \<open>XYZ and RGB\<close>

definition XYZToRGB :: "XYZColor \<Rightarrow> ColorSpace \<Rightarrow> RGBColor" where
  "XYZToRGB xyz colorSpace =
     (let matrix = XYZToRGB_matrix colorSpace;
          r = matrix ! 0 ! 0 * xyz_x xyz + matrix ! 0 ! 1 * xyz_y xyz + matrix ! 0 ! 2 * xyz_z xyz;
          g = matrix ! 1 ! 0 * xyz_x xyz + matrix ! 1 ! 1 * xyz_y xyz + matrix ! 1 ! 2 * xyz_z xyz;
          b = matrix ! 2 ! 0 * xyz_x xyz + matrix ! 2 ! 1 * xyz_y xyz + matrix ! 2 ! 2 * xyz_z xyz
      in \<lparr>rgb_r = r, rgb_g = g, rgb_b = b\<rparr>)"

definition RGBToXYZ :: "RGBColor \<Rightarrow> ColorSpace \<Rightarrow> XYZColor" where
  "RGBToXYZ rgb colorSpace =
     (let matrix = RGBToXYZ_matrix colorSpace;
          x = matrix ! 0 ! 0 * rgb_r rgb + matrix ! 0 ! 1 * rgb_g rgb + matrix ! 0 ! 2 * rgb_b rgb;
          y = matrix ! 1 ! 0 * rgb_r rgb + matrix ! 1 ! 1 * rgb_g rgb + matrix ! 1 ! 2 * rgb_b rgb;
          z = matrix ! 2 ! 0 * rgb_r rgb + matrix ! 2 ! 1 * rgb_g rgb + matrix ! 2 ! 2 * rgb_b rgb
      in \<lparr>xyz_x = x, xyz_y = y, xyz_z = z\<rparr>)"

subsection \<open>Library functions of the host language\<close>

text \<open>
  \<^verbatim>\<open>Math.pow\<close>, after its ECMAScript definition, on real arguments. For a positive
  base it is the real power. For a base that is zero or negative it is the integer power
  when the exponent is an integer (and, for base zero, not negative). Everywhere else the
  double result is \<^verbatim>\<open>NaN\<close> or an infinity (or, for base zero and a positive exponent
  that is not an integer, zero); the model returns 0 there. No call of the source reaches
  that last case: every call has either a positive base or the literal exponent 2 or 3.
\<close>

definition Math_pow :: "real \<Rightarrow> real \<Rightarrow> real" where
  "Math_pow base exponent =
     (if 0 < base then base powr exponent
      else if exponent = of_int \<lfloor>exponent\<rfloor> \<and> (base \<noteq> 0 \<or> 0 \<le> exponent)
        then base powi \<lfloor>exponent\<rfloor>
      else 0)"

text \<open>
  The angle of the point \<open>(x, y)\<close>, in radians, between \<open>-\<pi>\<close> (excluded) and
  \<open>\<pi>\<close> (included), and 0 at the origin: the exact value that \<^verbatim>\<open>Math.atan2(y, x)\<close>
  approximates.
\<close>

definition atan2 :: "real \<Rightarrow> real \<Rightarrow> real" where
  "atan2 y x =
     (if 0 < x then arctan (y / x)
      else if x < 0 then (if 0 \<le> y then arctan (y / x) + pi else arctan (y / x) - pi)
      else if 0 < y then pi / 2
      else if y < 0 then - (pi / 2)
      else 0)"

text \<open>
  \<^verbatim>\<open>Math.atan2\<close>, \<^verbatim>\<open>Math.sqrt\<close> and \<^verbatim>\<open>Math.PI\<close> in binary64. \<^verbatim>\<open>Math.PI\<close> is
  the double nearest to \<open>\<pi>\<close>. For the two functions the embedding takes the correctly
  rounded result; ECMAScript asks only for an approximation of it, and the property
  stated below about \<^verbatim>\<open>Math.atan2\<close> uses no more than that its result, for a small
  negative angle, is negative and within a factor of two of the exact angle.
\<close>

definition Math_atan2 :: "real \<Rightarrow> real \<Rightarrow> real" where
  "Math_atan2 y x = to_double (atan2 y x)"

definition Math_sqrt :: "real \<Rightarrow> real" where
  "Math_sqrt x = to_double (sqrt x)"

definition Math_PI :: real where
  "Math_PI = to_double pi"

text \<open>
  Division by a value that may be zero. The double result is then an infinity or
  \<^verbatim>\<open>NaN\<close>, which is no real number: \<open>None\<close>.
\<close>

definition js_div :: "real \<Rightarrow> real \<Rightarrow> real option" where
  "js_div a b = (if b = 0 then None else Some (a / b))"

subsection \<open>Gamma correction\<close>

definition gammaCorrect :: "real \<Rightarrow> real" where
  "gammaCorrect v =
     (if v \<le> 0.0031308 then 12.92 * v
      else 1.055 * Math_pow v (1 / 2.4) - 0.055)"

definition gammaUncorrect :: "real \<Rightarrow> real" where
  "gammaUncorrect v =
     (if v \<le> 0.04045 then v / 12.92
      else Math_pow ((v + 0.055) / 1.055) 2.4)"

subsection \<open>XYZ to LAB, LAB to OKLCH\<close>

definition labF :: "real \<Rightarrow> real" where
  "labF t = (if t > 0.008856 then Math_pow t (1 / 3) else 7.787 * t + 16 / 116)"

definition XYZToLAB :: "XYZColor \<Rightarrow> LABColor" where
  "XYZToLAB xyz =
     (let xn = 0.95047;
          yn = 1.00000;
          zn = 1.08883;
          fx = labF (xyz_x xyz / xn);
          fy = labF (xyz_y xyz / yn);
          fz = labF (xyz_z xyz / zn);
          l = 116 * fy - 16;
          a = 500 * (fx - fy);
          b = 200 * (fy - fz)
      in \<lparr>lab_l = l, lab_a = a, lab_b = b\<rparr>)"

text \<open>
  In binary64, operation by operation; the literals 100, 180 and 360 are doubles.
\<close>

definition LABToOKLCH :: "LABColor \<Rightarrow> OKLCHColor" where
  "LABToOKLCH lab =
     (let l = double_div (lab_l lab) 100;
          c = double_div (Math_sqrt (double_add (double_mul (lab_a lab) (lab_a lab))
                (double_mul (lab_b lab) (lab_b lab)))) 100;
          h = double_div (double_mul (Math_atan2 (lab_b lab) (lab_a lab)) 180) Math_PI
      in \<lparr>oklch_l = l, oklch_c = c, oklch_h = (if h < 0 then double_add h 360 else h)\<rparr>)"

subsection \<open>Colour temperature\<close>

text \<open>
  The source divides by \<^verbatim>\<open>0.1858 - y\<close> with no test; at \<open>y = 0.1858\<close> the
  quotient, and with it the result, is not a finite number.
\<close>

definition getColorTemperature :: "real \<Rightarrow> real \<Rightarrow> real option" where
  "getColorTemperature x y =
     (case js_div (x - 0.3320) (0.1858 - y) of
        None \<Rightarrow> None
      | Some n \<Rightarrow> Some (449 * Math_pow n 3 + 3525 * Math_pow n 2 + 6823.3 * n + 5520.33))"

subsection \<open>Gamut test\<close>

definition isInGamut :: "RGBColor \<Rightarrow> bool" where
  "isInGamut rgb \<longleftrightarrow>
     rgb_r rgb \<ge> 0 \<and> rgb_r rgb \<le> 255 \<and>
     rgb_g rgb \<ge> 0 \<and> rgb_g rgb \<le> 255 \<and>
     rgb_b rgb \<ge> 0 \<and> rgb_b rgb \<le> 255"

subsection \<open>CSS serialisation\<close>

text \<open>
  \<^verbatim>\<open>Math.round\<close>: the nearest integer, a tie going up.
\<close>

definition Math_round :: "real \<Rightarrow> int" where
  "Math_round x = \<lfloor>x + 1 / 2\<rfloor>"

text \<open>
  The decimal numeral of a natural number, and with it the string that a template
  literal gives for a number with an integer value.
\<close>

definition decimal_digit :: "nat \<Rightarrow> char" where
  "decimal_digit d = ''0123456789'' ! d"

fun decimal_digits :: "nat \<Rightarrow> string" where
  "decimal_digits n =
     (if n < 10 then [decimal_digit n]
      else decimal_digits (n div 10) @ [decimal_digit (n mod 10)])"

declare decimal_digits.simps [simp del]

definition Number_toString :: "int \<Rightarrow> string" where
  "Number_toString i =
     (if i < 0 then ''-'' @ decimal_digits (nat (- i)) else decimal_digits (nat i))"

text \<open>
  \<^verbatim>\<open>Number.prototype.toFixed\<close>, after its ECMAScript definition, for a number below
  \<open>10\<^sup>2\<^sup>1\<close> in absolute value: the sign, then the digits of the integer \<open>n\<close> nearest to
  \<open>\<bar>x\<bar> * 10\<^sup>f\<close> (the larger one at a tie), padded on the left with zeros to
  \<open>f + 1\<close> digits, with a point before the last \<open>f\<close> of them.
\<close>

definition toFixed :: "real \<Rightarrow> nat \<Rightarrow> string" where
  "toFixed x f =
     (let s = (if x < 0 then ''-'' else []);
          n = nat \<lfloor>\<bar>x\<bar> * 10 ^ f + 1 / 2\<rfloor>;
          m = decimal_digits n;
          m = (if f \<noteq> 0 then
                 (let m = (if length m \<le> f then replicate (f + 1 - length m) (CHR ''0'') @ m
                           else m);
                      k = length m
                  in take (k - f) m @ ''.'' @ drop (k - f) m)
               else m)
      in s @ m)"

definition generateCSSColor :: "RGBColor \<Rightarrow> ColorSpace \<Rightarrow> string" where
  "generateCSSColor rgb colorSpace =
     (let r = Math_round (max 0 (min 255 (rgb_r rgb)));
          g = Math_round (max 0 (min 255 (rgb_g rgb)));
          b = Math_round (max 0 (min 255 (rgb_b rgb)))
      in case colorSpace of
           P3 \<Rightarrow>
             ''color(display-p3 '' @ toFixed (of_int r / 255) 4 @ '' ''
               @ toFixed (of_int g / 255) 4 @ '' '' @ toFixed (of_int b / 255) 4 @ '')''
         | Rec2020 \<Rightarrow>
             ''color(rec2020 '' @ toFixed (of_int r / 255) 4 @ '' ''
               @ toFixed (of_int g / 255) 4 @ '' '' @ toFixed (of_int b / 255) 4 @ '')''
         | _ \<Rightarrow>
             ''rgb('' @ Number_toString r @ '', '' @ Number_toString g @ '', ''
               @ Number_toString b @ '')'')"

text \<open>
  The specification's wording for the P3 form, "each quotient printed to 4 decimal
  places", for a quotient between 0 and 1: the digit before the point and the four
  digits after it of the multiple of \<open>0.0001\<close> nearest to the quotient. The channels
  are integers from 0 to 255, so a quotient is never half way between two multiples.
\<close>

definition four_decimal_places :: "real \<Rightarrow> string" where
  "four_decimal_places q =
     (let n = nat \<lfloor>q * 10000 + 1 / 2\<rfloor>
      in [decimal_digit (n div 10000), CHR ''.'',
          decimal_digit (n div 1000 mod 10), decimal_digit (n div 100 mod 10),
          decimal_digit (n div 10 mod 10), decimal_digit (n mod 10)])"

section \<open>Properties\<close>

subsection \<open>Rounding to binary64\<close>

text \<open>
  The facts about \<open>to_double\<close> that the properties of the binary64 functions rest on:
  the error of one rounding (half a unit in the last place; relative \<open>2\<^sup>-\<^sup>5\<^sup>3\<close> in the
  normal range; \<open>2\<^sup>-\<^sup>1\<^sup>0\<^sup>7\<^sup>5\<close> more in general), the numbers that rounding leaves alone,
  monotonicity, and the evaluation of a rounding at a given number.
\<close>

lemma round_ties_even_of_int [simp]: "round_ties_even (of_int n) = n"
  by (simp add: round_ties_even_def)

lemma round_ties_even_bounds:
  "\<lfloor>y\<rfloor> \<le> round_ties_even y" "round_ties_even y \<le> \<lfloor>y\<rfloor> + 1"
  by (simp_all add: round_ties_even_def Let_def)

lemma round_ties_even_error: "\<bar>of_int (round_ties_even y) - y\<bar> \<le> 1 / 2"
proof -
  have "of_int \<lfloor>y\<rfloor> \<le> y" "y < of_int \<lfloor>y\<rfloor> + 1"
    by linarith+
  then show ?thesis
    by (auto simp add: round_ties_even_def Let_def)
qed

lemma round_ties_even_mono:
  assumes "a \<le> b"
  shows "round_ties_even a \<le> round_ties_even b"
proof (cases "\<lfloor>a\<rfloor> = \<lfloor>b\<rfloor>")
  case True
  then show ?thesis
    using assms by (auto simp add: round_ties_even_def Let_def)
next
  case False
  then have "\<lfloor>a\<rfloor> + 1 \<le> \<lfloor>b\<rfloor>"
    using floor_mono [OF assms] by linarith
  then show ?thesis
    using round_ties_even_bounds(2) [of a] round_ties_even_bounds(1) [of b] by linarith
qed

lemma two_powr_int: "2 powr real_of_int k = (2::real) powi k"
  by (rule powr_real_of_int') simp_all

lemma binade_bounds:
  assumes "x \<noteq> 0"
  shows "2 powi \<lfloor>log 2 \<bar>x\<bar>\<rfloor> \<le> \<bar>x\<bar>" "\<bar>x\<bar> < 2 powi (\<lfloor>log 2 \<bar>x\<bar>\<rfloor> + 1)"
proof -
  have "0 < \<bar>x\<bar>" using assms by simp
  then have "2 powr real_of_int \<lfloor>log 2 \<bar>x\<bar>\<rfloor> \<le> \<bar>x\<bar>
      \<and> \<bar>x\<bar> < 2 powr real_of_int (\<lfloor>log 2 \<bar>x\<bar>\<rfloor> + 1)"
    using floor_log_eq_powr_iff [of "\<bar>x\<bar>" 2 "\<lfloor>log 2 \<bar>x\<bar>\<rfloor>"] by simp
  then show "2 powi \<lfloor>log 2 \<bar>x\<bar>\<rfloor> \<le> \<bar>x\<bar>" "\<bar>x\<bar> < 2 powi (\<lfloor>log 2 \<bar>x\<bar>\<rfloor> + 1)"
    by (simp_all only: two_powr_int)
qed

lemma floor_log2_eq:
  assumes "2 powi k \<le> \<bar>x\<bar>" "\<bar>x\<bar> < 2 powi (k + 1)"
  shows "\<lfloor>log 2 \<bar>x\<bar>\<rfloor> = k"
proof -
  have "0 < (2::real) powi k" by simp
  then have "0 < \<bar>x\<bar>" using assms(1) by linarith
  moreover have "2 powr real_of_int k \<le> \<bar>x\<bar>" "\<bar>x\<bar> < 2 powr real_of_int (k + 1)"
    using assms by (simp_all only: two_powr_int)
  ultimately show ?thesis
    using floor_log_eq_powr_iff [of "\<bar>x\<bar>" 2 k] by simp
qed

lemma floor_log2_less:
  assumes "x \<noteq> 0" "\<bar>x\<bar> < 2 powi k"
  shows "\<lfloor>log 2 \<bar>x\<bar>\<rfloor> < k"
proof (rule ccontr)
  assume "\<not> \<lfloor>log 2 \<bar>x\<bar>\<rfloor> < k"
  then have "(2::real) powi k \<le> 2 powi \<lfloor>log 2 \<bar>x\<bar>\<rfloor>"
    by (intro power_int_increasing) simp_all
  then show False
    using binade_bounds(1) [OF assms(1)] assms(2) by linarith
qed

lemma floor_log2_ge:
  assumes "2 powi k \<le> \<bar>x\<bar>"
  shows "k \<le> \<lfloor>log 2 \<bar>x\<bar>\<rfloor>"
proof (rule ccontr)
  assume "\<not> k \<le> \<lfloor>log 2 \<bar>x\<bar>\<rfloor>"
  then have "(2::real) powi (\<lfloor>log 2 \<bar>x\<bar>\<rfloor> + 1) \<le> 2 powi k"
    by (intro power_int_increasing) simp_all
  moreover have "0 < (2::real) powi k" by simp
  then have "0 < \<bar>x\<bar>" using assms by linarith
  then have "x \<noteq> 0" by simp
  ultimately show False
    using binade_bounds(2) [of x] assms by linarith
qed

lemma ulp_exponent_upper:
  assumes "x \<noteq> 0"
  shows "\<bar>x\<bar> < 2 powi (ulp_exponent x + 53)"
proof -
  have "(2::real) powi (\<lfloor>log 2 \<bar>x\<bar>\<rfloor> + 1) \<le> 2 powi (ulp_exponent x + 53)"
    by (intro power_int_increasing) (simp_all add: ulp_exponent_def)
  then show ?thesis
    using binade_bounds(2) [OF assms] by linarith
qed

lemma ulp_exponent_normal:
  assumes "2 powi (- 1022) \<le> \<bar>x\<bar>"
  shows "ulp_exponent x = \<lfloor>log 2 \<bar>x\<bar>\<rfloor> - 52" "2 powi (ulp_exponent x + 52) \<le> \<bar>x\<bar>"
proof -
  have k: "- 1022 \<le> \<lfloor>log 2 \<bar>x\<bar>\<rfloor>"
    using assms by (rule floor_log2_ge)
  then show e: "ulp_exponent x = \<lfloor>log 2 \<bar>x\<bar>\<rfloor> - 52"
    unfolding ulp_exponent_def by linarith
  have "0 < (2::real) powi (- 1022)" by simp
  then have "0 < \<bar>x\<bar>" using assms by linarith
  then have "x \<noteq> 0" by simp
  then show "2 powi (ulp_exponent x + 52) \<le> \<bar>x\<bar>"
    using binade_bounds(1) [of x] by (simp add: e)
qed

lemma to_double_error_ulp: "\<bar>to_double x - x\<bar> \<le> 2 powi ulp_exponent x / 2"
proof (cases "x = 0")
  case True
  then show ?thesis by (simp add: to_double_def)
next
  case False
  define p :: real where "p = 2 powi ulp_exponent x"
  have p: "0 < p" by (simp add: p_def)
  have "to_double x - x = (of_int (round_ties_even (x / p)) - x / p) * p"
    using False p by (simp add: to_double_def p_def field_simps)
  then have "\<bar>to_double x - x\<bar> = \<bar>of_int (round_ties_even (x / p)) - x / p\<bar> * p"
    using p by (simp add: abs_mult)
  also have "\<dots> \<le> 1 / 2 * p"
    using p round_ties_even_error [of "x / p"] by (intro mult_right_mono) simp_all
  finally show ?thesis by (simp add: p_def)
qed

lemma to_double_error_normal:
  assumes "2 powi (- 1022) \<le> \<bar>x\<bar>"
  shows "\<bar>to_double x - x\<bar> \<le> \<bar>x\<bar> / 2 ^ 53"
proof -
  have "2 powi ulp_exponent x * 2 powi 52 = (2::real) powi (ulp_exponent x + 52)"
    by (simp add: power_int_add)
  also have "\<dots> \<le> \<bar>x\<bar>"
    using assms by (rule ulp_exponent_normal(2))
  finally have "2 powi ulp_exponent x * 2 ^ 52 \<le> \<bar>x\<bar>"
    by simp
  then have "2 powi ulp_exponent x / 2 \<le> \<bar>x\<bar> / 2 ^ 53"
    by simp
  then show ?thesis
    using to_double_error_ulp [of x] by linarith
qed

lemma ulp_exponent_subnormal:
  assumes "x \<noteq> 0" "\<bar>x\<bar> < 2 powi (- 1022)"
  shows "ulp_exponent x = - 1074"
proof -
  have "\<lfloor>log 2 \<bar>x\<bar>\<rfloor> < - 1022"
    using assms by (rule floor_log2_less)
  then show ?thesis
    unfolding ulp_exponent_def by linarith
qed

lemma to_double_error:
  "\<bar>to_double x - x\<bar> \<le> \<bar>x\<bar> / 2 ^ 53 + 2 powi (- 1075)"
proof -
  have pos: "0 \<le> (2::real) powi (- 1075)" "0 \<le> \<bar>x\<bar> / 2 ^ 53"
    by simp_all
  consider "x = 0" | "2 powi (- 1022) \<le> \<bar>x\<bar>" | "x \<noteq> 0" "\<bar>x\<bar> < 2 powi (- 1022)"
    by linarith
  then show ?thesis
  proof cases
    case 1
    then show ?thesis by (simp add: to_double_def)
  next
    case 2
    then show ?thesis
      using to_double_error_normal [of x] pos by linarith
  next
    case 3
    then have "ulp_exponent x = - 1074"
      by (rule ulp_exponent_subnormal)
    then have "\<bar>to_double x - x\<bar> \<le> 2 powi (- 1074) / 2"
      using to_double_error_ulp [of x] by simp
    also have "(2::real) powi (- 1074) / 2 = 2 powi (- 1075)"
      by (simp add: power_int_minus field_simps)
    finally show ?thesis
      using pos by linarith
  qed
qed

lemma to_double_representable:
  assumes "\<bar>m\<bar> < 2 ^ 53" "- 1074 \<le> k"
  shows "to_double (of_int m * 2 powi k) = of_int m * 2 powi k"
proof (cases "m = 0")
  case True
  then show ?thesis by (simp add: to_double_def)
next
  case False
  define x :: real where "x = of_int m * 2 powi k"
  define e where "e = ulp_exponent x"
  have x: "x \<noteq> 0" using False by (simp add: x_def)
  have "\<bar>x\<bar> = of_int \<bar>m\<bar> * 2 powi k"
    by (simp add: x_def abs_mult)
  also have "\<dots> < 2 ^ 53 * 2 powi k"
    using assms(1) by (intro mult_strict_right_mono) (simp_all flip: of_int_less_iff [where 'a = real])
  also have "\<dots> = 2 powi (k + 53)"
    by (simp add: power_int_add)
  finally have "\<lfloor>log 2 \<bar>x\<bar>\<rfloor> < k + 53"
    using x by (intro floor_log2_less)
  then have e: "e \<le> k"
    using assms(2) unfolding e_def ulp_exponent_def by linarith
  then obtain n where n: "k = e + int n"
    by (metis zle_iff_zadd)
  have "x / 2 powi e = of_int m * (2 powi k / 2 powi e)"
    by (simp add: x_def)
  also have "2 powi k / 2 powi e = (2::real) ^ n"
    by (simp add: n power_int_add)
  finally have "x / 2 powi e = of_int (m * 2 ^ n)"
    by simp
  then have "round_ties_even (x / 2 powi e) = m * 2 ^ n"
    by (simp only: round_ties_even_of_int)
  then have "to_double x = of_int (m * 2 ^ n) * 2 powi e"
    using x by (simp add: to_double_def e_def)
  also have "\<dots> = of_int m * (2 ^ n * 2 powi e)"
    by simp
  also have "2 ^ n * 2 powi e = (2::real) powi k"
    by (simp add: n power_int_add)
  finally show ?thesis
    by (simp add: x_def)
qed

lemma ulp_exponent_ge: "- 1074 \<le> ulp_exponent x"
  by (simp add: ulp_exponent_def)

lemma ulp_exponent_mono:
  assumes "0 < x" "x \<le> y"
  shows "ulp_exponent x \<le> ulp_exponent y"
proof -
  have "log 2 \<bar>x\<bar> \<le> log 2 \<bar>y\<bar>"
    using assms by (intro log_mono) simp_all
  then have "\<lfloor>log 2 \<bar>x\<bar>\<rfloor> \<le> \<lfloor>log 2 \<bar>y\<bar>\<rfloor>"
    by (rule floor_mono)
  then show ?thesis
    unfolding ulp_exponent_def by linarith
qed

lemma to_double_nonneg:
  assumes "0 \<le> x"
  shows "0 \<le> to_double x"
proof (cases "x = 0")
  case True
  then show ?thesis by (simp add: to_double_def)
next
  case False
  have "0 \<le> x / 2 powi ulp_exponent x"
    using assms by simp
  then have "round_ties_even 0 \<le> round_ties_even (x / 2 powi ulp_exponent x)"
    by (rule round_ties_even_mono)
  then have "0 \<le> round_ties_even (x / 2 powi ulp_exponent x)"
    using round_ties_even_of_int [of 0] by simp
  then show ?thesis
    using False by (simp add: to_double_def)
qed

lemma to_double_mono:
  assumes "0 \<le> x" "x \<le> y"
  shows "to_double x \<le> to_double y"
proof (cases "x = 0")
  case True
  then show ?thesis
    using assms to_double_nonneg [of y] by (simp add: to_double_def)
next
  case False
  then have x: "0 < x" and y: "0 < y" "y \<noteq> 0"
    using assms by simp_all
  define ex where "ex = ulp_exponent x"
  define ey where "ey = ulp_exponent y"
  have dx: "to_double x = of_int (round_ties_even (x / 2 powi ex)) * 2 powi ex"
    using False by (simp add: to_double_def ex_def)
  have dy: "to_double y = of_int (round_ties_even (y / 2 powi ey)) * 2 powi ey"
    using y by (simp add: to_double_def ey_def)
  have le: "ex \<le> ey"
    unfolding ex_def ey_def using x assms(2) by (rule ulp_exponent_mono)
  show ?thesis
  proof (cases "ex = ey")
    case True
    have "x / 2 powi ey \<le> y / 2 powi ey"
      using assms(2) by (simp add: divide_right_mono)
    then have "round_ties_even (x / 2 powi ey) \<le> round_ties_even (y / 2 powi ey)"
      by (rule round_ties_even_mono)
    then have "(of_int (round_ties_even (x / 2 powi ey)) :: real)
        \<le> of_int (round_ties_even (y / 2 powi ey))"
      by simp
    then show ?thesis
      unfolding dx dy True by (intro mult_right_mono) simp_all
  next
    case False
    then have lt: "ex + 1 \<le> ey" using le by simp
    \<comment> \<open>the smaller number rounds to at most the top of its binade\<close>
    have "\<bar>x\<bar> < 2 powi (ex + 53)"
      unfolding ex_def using \<open>x \<noteq> 0\<close> by (rule ulp_exponent_upper)
    then have "x / 2 powi ex \<le> 2 powi (ex + 53) / 2 powi ex"
      using x by (intro divide_right_mono) simp_all
    also have "\<dots> = of_int (2 ^ 53)"
      by (simp add: power_int_add)
    finally have "round_ties_even (x / 2 powi ex) \<le> round_ties_even (of_int (2 ^ 53))"
      by (rule round_ties_even_mono)
    then have "round_ties_even (x / 2 powi ex) \<le> 2 ^ 53"
      by (simp only: round_ties_even_of_int)
    then have "(of_int (round_ties_even (x / 2 powi ex)) :: real) \<le> 2 ^ 53"
      by (metis of_int_le_iff of_int_numeral of_int_power)
    then have "to_double x \<le> 2 ^ 53 * 2 powi ex"
      unfolding dx by (intro mult_right_mono) simp_all
    also have "\<dots> = 2 powi (ex + 53)"
      by (simp add: power_int_add)
    also have "\<dots> \<le> 2 powi (ey + 52)"
      using lt by (intro power_int_increasing) simp_all
    finally have upper: "to_double x \<le> 2 powi (ey + 52)" .
    \<comment> \<open>the larger number rounds to at least the bottom of its binade\<close>
    have "- 1074 \<le> ex" unfolding ex_def by (rule ulp_exponent_ge)
    then have "ey = \<lfloor>log 2 \<bar>y\<bar>\<rfloor> - 52"
      using lt unfolding ey_def ulp_exponent_def by linarith
    then have "2 powi (ey + 52) \<le> \<bar>y\<bar>"
      using binade_bounds(1) [OF y(2)] by simp
    then have "2 powi (ey + 52) / 2 powi ey \<le> y / 2 powi ey"
      using y by (intro divide_right_mono) simp_all
    moreover have "2 powi (ey + 52) / 2 powi ey = (of_int (2 ^ 52) :: real)"
      by (simp add: power_int_add)
    ultimately have "round_ties_even (of_int (2 ^ 52)) \<le> round_ties_even (y / 2 powi ey)"
      by (intro round_ties_even_mono) simp
    then have "2 ^ 52 \<le> round_ties_even (y / 2 powi ey)"
      by (simp only: round_ties_even_of_int)
    then have "(2 ^ 52 :: real) \<le> of_int (round_ties_even (y / 2 powi ey))"
      by (metis of_int_le_iff of_int_numeral of_int_power)
    then have "2 ^ 52 * 2 powi ey \<le> to_double y"
      unfolding dy by (intro mult_right_mono) simp_all
    moreover have "2 ^ 52 * 2 powi ey = (2::real) powi (ey + 52)"
      by (simp add: power_int_add)
    ultimately show ?thesis
      using upper by linarith
  qed
qed

lemma round_ties_even_abs_le:
  assumes "\<bar>a\<bar> \<le> of_int n"
  shows "\<bar>round_ties_even a\<bar> \<le> n"
proof -
  have "a \<le> of_int n" "of_int (- n) \<le> a"
    using assms by simp_all
  then have "round_ties_even a \<le> round_ties_even (of_int n)"
    "round_ties_even (of_int (- n)) \<le> round_ties_even a"
    by (simp_all add: round_ties_even_mono del: round_ties_even_of_int of_int_minus)
  then show ?thesis
    by (simp only: round_ties_even_of_int)
qed

lemma to_double_idem: "to_double (to_double x) = to_double x"
proof (cases "x = 0")
  case True
  then show ?thesis by (simp add: to_double_def)
next
  case False
  define e where "e = ulp_exponent x"
  define r where "r = round_ties_even (x / 2 powi e)"
  have d: "to_double x = of_int r * 2 powi e"
    using False by (simp add: to_double_def e_def r_def)
  have e: "- 1074 \<le> e" unfolding e_def by (rule ulp_exponent_ge)
  have "\<bar>x\<bar> < 2 powi (e + 53)"
    unfolding e_def using False by (rule ulp_exponent_upper)
  then have "\<bar>x\<bar> / 2 powi e \<le> 2 powi (e + 53) / 2 powi e"
    by (intro divide_right_mono) simp_all
  also have "\<dots> = of_int (2 ^ 53)"
    by (simp add: power_int_add)
  finally have "\<bar>x / 2 powi e\<bar> \<le> of_int (2 ^ 53)"
    by (simp add: abs_divide)
  then have r: "\<bar>r\<bar> \<le> 2 ^ 53"
    unfolding r_def by (rule round_ties_even_abs_le)
  show ?thesis
  proof (cases "\<bar>r\<bar> < 2 ^ 53")
    case True
    then show ?thesis
      unfolding d using e by (rule to_double_representable)
  next
    case False
    then have "r = 2 ^ 53 \<or> r = - (2 ^ 53)"
      using r by linarith
    then have "of_int r * 2 powi e = of_int (r div 2 ^ 53) * (2::real) powi (e + 53)"
      "\<bar>r div 2 ^ 53\<bar> < 2 ^ 53"
      by (auto simp add: power_int_add)
    moreover have "- 1074 \<le> e + 53" using e by simp
    ultimately show ?thesis
      unfolding d by (simp only: to_double_representable)
  qed
qed

lemma to_double_0 [simp]: "to_double 0 = 0"
  by (simp add: to_double_def)

lemma to_double_of_int:
  assumes "\<bar>m\<bar> < 2 ^ 53"
  shows "to_double (of_int m) = of_int m"
  using to_double_representable [of m 0] assms by simp

lemma to_double_1 [simp]: "to_double 1 = 1"
  using to_double_of_int [of 1] by simp

lemma to_double_numeral_small:
  assumes "(numeral n :: int) < 2 ^ 53"
  shows "to_double (numeral n) = numeral n"
  using to_double_of_int [of "numeral n"] assms by simp

lemma two_powi_shift: "(2::real) powi (k + int n) = 2 ^ n * 2 powi k"
  by (simp add: power_int_add)

lemma double_is_multiple:
  assumes "to_double x = x"
  obtains m where "x = of_int m * 2 powi (- 1074)"
proof (cases "x = 0")
  case True
  then have "x = of_int 0 * 2 powi (- 1074)" by simp
  then show ?thesis by (rule that)
next
  case False
  define e where "e = ulp_exponent x"
  define r where "r = round_ties_even (x / 2 powi e)"
  have "- 1074 \<le> e" unfolding e_def by (rule ulp_exponent_ge)
  then obtain n where n: "e = - 1074 + int n"
    by (metis zle_iff_zadd)
  have "x = of_int r * 2 powi e"
    using False assms by (simp add: to_double_def e_def r_def)
  also have "\<dots> = of_int r * (2 ^ n * 2 powi (- 1074))"
    by (simp only: n two_powi_shift)
  also have "\<dots> = of_int (r * 2 ^ n) * 2 powi (- 1074)"
    by (simp only: of_int_mult of_int_power of_int_numeral mult.assoc)
  finally show ?thesis by (rule that)
qed

lemma double_add_error:
  assumes "to_double a = a" "to_double b = b"
  shows "\<bar>to_double (a + b) - (a + b)\<bar> \<le> \<bar>a + b\<bar> / 2 ^ 53"
proof (cases "2 powi (- 1022) \<le> \<bar>a + b\<bar>")
  case True
  then show ?thesis by (rule to_double_error_normal)
next
  case False
  obtain m where m: "a = of_int m * 2 powi (- 1074)"
    using assms(1) by (rule double_is_multiple)
  obtain n where n: "b = of_int n * 2 powi (- 1074)"
    using assms(2) by (rule double_is_multiple)
  have s: "a + b = of_int (m + n) * 2 powi (- 1074)"
    by (simp only: m n of_int_add distrib_right)
  have "0 \<le> (2::real) powi (- 1074)"
    by (rule zero_le_power_int) simp
  then have "\<bar>of_int (m + n) :: real\<bar> * 2 powi (- 1074) = \<bar>a + b\<bar>"
    by (simp only: s abs_mult abs_of_nonneg)
  also have "\<dots> < 2 powi (- 1022)"
    using False by simp
  also have "\<dots> = 2 ^ 52 * (2::real) powi (- 1074)"
    using two_powi_shift [of "- 1074" 52] by simp
  finally have "\<bar>of_int (m + n) :: real\<bar> * 2 powi (- 1074) < 2 ^ 52 * 2 powi (- 1074)" .
  then have "\<bar>of_int (m + n) :: real\<bar> < 2 ^ 52"
    by (rule mult_right_less_imp_less) simp
  then have "\<bar>m + n\<bar> < 2 ^ 52"
    by (metis of_int_abs of_int_less_iff of_int_numeral of_int_power)
  then have "\<bar>m + n\<bar> < 2 ^ 53"
    by simp
  then have "to_double (a + b) = a + b"
    unfolding s by (intro to_double_representable) simp_all
  then show ?thesis by simp
qed

lemma two_powi_neg_nat: "(2::real) powi (- int n) = 1 / 2 ^ n"
  by (simp add: power_int_minus field_simps)

lemma to_double_scaled:
  assumes "2 ^ 52 \<le> \<bar>x\<bar> * 2 ^ n" "\<bar>x\<bar> * 2 ^ n < 2 ^ 53" "n \<le> 1074"
  shows "to_double x = of_int (round_ties_even (x * 2 ^ n)) / 2 ^ n"
proof -
  have p: "(2::real) powi (52 - int n) = 2 ^ 52 * (1 / 2 ^ n)"
    "(2::real) powi (52 - int n + 1) = 2 ^ 53 * (1 / 2 ^ n)"
    using two_powi_shift [of "- int n" 52] two_powi_shift [of "- int n" 53]
    by (simp_all add: two_powi_neg_nat algebra_simps)
  have "2 powi (52 - int n) \<le> \<bar>x\<bar>" "\<bar>x\<bar> < 2 powi (52 - int n + 1)"
    using assms(1,2) unfolding p by (simp_all add: field_simps)
  then have k: "\<lfloor>log 2 \<bar>x\<bar>\<rfloor> = 52 - int n"
    by (rule floor_log2_eq)
  have e: "ulp_exponent x = - int n"
    using assms(3) by (simp add: ulp_exponent_def k)
  have "x \<noteq> 0"
    using assms(1) by auto
  then show ?thesis
    by (simp add: to_double_def e two_powi_neg_nat)
qed

lemma round_ties_even_eval:
  assumes "of_int f \<le> y" "y < of_int f + 1"
  shows "round_ties_even y =
    (if y - of_int f < 1 / 2 then f else if 1 / 2 < y - of_int f then f + 1
     else if even f then f else f + 1)"
proof -
  have "\<lfloor>y\<rfloor> = f" using assms by linarith
  then show ?thesis by (simp add: round_ties_even_def)
qed

lemma to_double_scaled_down:
  assumes "2 ^ 52 \<le> \<bar>x\<bar> / 2 ^ n" "\<bar>x\<bar> / 2 ^ n < 2 ^ 53"
  shows "to_double x = of_int (round_ties_even (x / 2 ^ n)) * 2 ^ n"
proof -
  have p: "(2::real) powi (52 + int n) = 2 ^ 52 * 2 ^ n"
    "(2::real) powi (52 + int n + 1) = 2 ^ 53 * 2 ^ n"
    by (simp_all add: power_int_add)
  have "2 powi (52 + int n) \<le> \<bar>x\<bar>" "\<bar>x\<bar> < 2 powi (52 + int n + 1)"
    using assms unfolding p by (simp_all add: field_simps)
  then have k: "\<lfloor>log 2 \<bar>x\<bar>\<rfloor> = 52 + int n"
    by (rule floor_log2_eq)
  have e: "ulp_exponent x = int n"
    by (simp add: ulp_exponent_def k)
  have "x \<noteq> 0"
    using assms(1) by auto
  then show ?thesis
    by (simp add: to_double_def e)
qed

lemma to_double_power_of_two:
  assumes "- 1074 \<le> k"
  shows "to_double (2 powi k) = 2 powi k" "to_double (- (2 powi k)) = - (2 powi k)"
  using to_double_representable [of 1 k] to_double_representable [of "- 1" k] assms by simp_all

lemma to_double_underflow:
  assumes "0 \<le> x" "x < 1 / 2 ^ 1075"
  shows "to_double x = 0"
proof (cases "x = 0")
  case True
  then show ?thesis by simp
next
  case False
  have "(1::real) / 2 ^ 1075 \<le> 1 / 2 ^ 1022"
    by (intro divide_left_mono power_increasing) simp_all
  then have "\<bar>x\<bar> < 2 powi (- 1022)"
    using assms by (simp add: two_powi_neg_nat [of 1022, simplified])
  then have e: "ulp_exponent x = - 1074"
    using False by (intro ulp_exponent_subnormal)
  have "x * 2 ^ 1074 < 1 / 2 ^ 1075 * 2 ^ 1074"
    using assms(2) by (intro mult_strict_right_mono) simp_all
  then have "x * 2 ^ 1074 < 1 / 2"
    by simp
  moreover have "0 \<le> x * 2 ^ 1074"
    using assms(1) by simp
  ultimately have "round_ties_even (x * 2 ^ 1074) = 0"
    by (subst round_ties_even_eval [where f = 0]) simp_all
  then show ?thesis
    using False by (simp add: to_double_def e two_powi_neg_nat [of 1074, simplified])
qed

lemma to_double_error_numeral:
  "\<bar>to_double t - t\<bar> \<le> \<bar>t\<bar> / 9007199254740992 + 2 powi (- 1075)"
  using to_double_error [of t] by simp

lemma round_ties_even_minus: "round_ties_even (- y) = - round_ties_even y"
proof (cases "y = of_int \<lfloor>y\<rfloor>")
  case True
  then have "round_ties_even y = \<lfloor>y\<rfloor>" "round_ties_even (- y) = - \<lfloor>y\<rfloor>"
    by (metis round_ties_even_of_int, metis round_ties_even_of_int of_int_minus)
  then show ?thesis by simp
next
  case False
  define f where "f = \<lfloor>y\<rfloor>"
  have y: "of_int f < y" "y < of_int f + 1"
    using False unfolding f_def by linarith+
  then have n: "\<lfloor>- y\<rfloor> = - f - 1"
    by linarith
  have "even (- f - 1) \<longleftrightarrow> odd f"
    by simp
  then show ?thesis
    using y by (auto simp add: round_ties_even_def n f_def [symmetric] Let_def)
qed

lemma to_double_minus: "to_double (- x) = - to_double x"
  by (simp add: to_double_def ulp_exponent_def round_ties_even_minus)

lemma to_double_abs_le:
  assumes "\<bar>x\<bar> \<le> M"
  shows "\<bar>to_double x\<bar> \<le> to_double M"
proof (cases "0 \<le> x")
  case True
  then have "to_double x \<le> to_double M" "0 \<le> to_double x"
    using assms by (simp_all add: to_double_mono to_double_nonneg)
  then show ?thesis by simp
next
  case False
  then have "to_double (- x) \<le> to_double M" "0 \<le> to_double (- x)"
    using assms by (simp_all add: to_double_mono to_double_nonneg)
  then show ?thesis by (simp add: to_double_minus)
qed

subsection \<open>Degenerate inputs of the chromaticity transforms\<close>

text \<open>
  C3. \<open>XYZToxyY\<close> maps the zero vector to \<open>{x:0, y:0, Y:0}\<close>, and \<open>xyYToXYZ\<close> maps
  every input whose chromaticity \<open>y\<close> is 0 to \<open>{x:0, y:0, z:0}\<close>. Both are plain return
  values: the functions have no error result.
\<close>

theorem degenerate_inputs_return_zero:
  "XYZToxyY \<lparr>xyz_x = 0, xyz_y = 0, xyz_z = 0\<rparr> = \<lparr>xy_x = 0, xy_y = 0, xy_Y = 0\<rparr>
   \<and> (\<forall>c. xy_y c = 0 \<longrightarrow> xyYToXYZ c = \<lparr>xyz_x = 0, xyz_y = 0, xyz_z = 0\<rparr>)"
  by (simp add: XYZToxyY_def xyYToXYZ_def double_add_def)

theorem degenerate_inputs_return_zero_witness:
  "xy_y \<lparr>xy_x = 0.4, xy_y = 0, xy_Y = 0.7\<rparr> = 0
   \<and> xyYToXYZ \<lparr>xy_x = 0.4, xy_y = 0, xy_Y = 0.7\<rparr> = \<lparr>xyz_x = 0, xyz_y = 0, xyz_z = 0\<rparr>"
  using degenerate_inputs_return_zero by simp

subsection \<open>Gamut test\<close>

text \<open>
  C7. \<open>isInGamut\<close> holds exactly when the three channels lie in the closed interval
  from 0 to 255. It takes no colour space. It rejects \<open>{300, 0, 0}\<close> and accepts
  \<open>{0, 0, 0}\<close>.
\<close>

theorem isInGamut_iff_channels_in_range:
  "(isInGamut rgb \<longleftrightarrow> (\<forall>c \<in> {rgb_r rgb, rgb_g rgb, rgb_b rgb}. 0 \<le> c \<and> c \<le> 255))
   \<and> \<not> isInGamut \<lparr>rgb_r = 300, rgb_g = 0, rgb_b = 0\<rparr>
   \<and> isInGamut \<lparr>rgb_r = 0, rgb_g = 0, rgb_b = 0\<rparr>"
  by (auto simp add: isInGamut_def)

theorem isInGamut_iff_channels_in_range_witness:
  "isInGamut \<lparr>rgb_r = 255, rgb_g = 100, rgb_b = 100\<rparr>
   \<and> \<not> isInGamut \<lparr>rgb_r = 10, rgb_g = -1, rgb_b = 20\<rparr>"
  using isInGamut_iff_channels_in_range [of "\<lparr>rgb_r = 255, rgb_g = 100, rgb_b = 100\<rparr>"]
    isInGamut_iff_channels_in_range [of "\<lparr>rgb_r = 10, rgb_g = -1, rgb_b = 20\<rparr>"]
  by simp

subsection \<open>RGB to XYZ and back\<close>

text \<open>
  The composition of the two matrices of a colour space, computed exactly. The product is
  close to the identity and not equal to it: the coefficients of the source are rounded
  to four decimals independently.
\<close>

lemmas matrix_defs =
  XYZToRGB_matrix_def RGBToXYZ_matrix_def sRGB_MATRIX_def P3_MATRIX_def REC2020_MATRIX_def

lemma roundtrip_sRGB:
  "XYZToRGB (RGBToXYZ c sRGB) sRGB =
     \<lparr>rgb_r = 0.99999174 * rgb_r c + 0.00002316 * rgb_b c,
      rgb_g = 0.00002167 * rgb_r c + 1.00004032 * rgb_g c - 0.00000794 * rgb_b c,
      rgb_b = 0.00000038 * rgb_r c + 0.00001192 * rgb_g c + 1.00000355 * rgb_b c\<rparr>"
  by (simp add: XYZToRGB_def RGBToXYZ_def matrix_defs Let_def algebra_simps)

lemma roundtrip_P3:
  "XYZToRGB (RGBToXYZ c P3) P3 =
     \<lparr>rgb_r = 0.9997714 * rgb_r c + 0.0001544 * rgb_g c - 0.00003874 * rgb_b c,
      rgb_g = 0.00010655 * rgb_r c + 0.9999258 * rgb_g c + 0.00001125 * rgb_b c,
      rgb_b = - 0.0000102 * rgb_r c + 0.00002988 * rgb_g c + 0.99996874 * rgb_b c\<rparr>"
  by (simp add: XYZToRGB_def RGBToXYZ_def matrix_defs Let_def algebra_simps)

lemma roundtrip_Rec2020:
  "XYZToRGB (RGBToXYZ c Rec2020) Rec2020 =
     \<lparr>rgb_r = 1.00009551 * rgb_r c - 0.00005032 * rgb_g c + 0.00002556 * rgb_b c,
      rgb_g = - 0.00003335 * rgb_r c + 1.00002616 * rgb_g c + 0.00001504 * rgb_b c,
      rgb_b = - 0.00003236 * rgb_r c - 0.00000043 * rgb_g c + 0.99990849 * rgb_b c\<rparr>"
  by (simp add: XYZToRGB_def RGBToXYZ_def matrix_defs Let_def algebra_simps)

text \<open>The deviation of each channel, space by space, for channels between 0 and 255.\<close>

lemma roundtrip_sRGB_bound:
  assumes "0 \<le> rgb_r c" "rgb_r c \<le> 255" "0 \<le> rgb_g c" "rgb_g c \<le> 255"
    "0 \<le> rgb_b c" "rgb_b c \<le> 255"
  shows "\<bar>rgb_r (XYZToRGB (RGBToXYZ c sRGB) sRGB) - rgb_r c\<bar> \<le> 0.016"
    and "\<bar>rgb_g (XYZToRGB (RGBToXYZ c sRGB) sRGB) - rgb_g c\<bar> \<le> 0.016"
    and "\<bar>rgb_b (XYZToRGB (RGBToXYZ c sRGB) sRGB) - rgb_b c\<bar> \<le> 0.016"
  using assms unfolding roundtrip_sRGB RGBColor.select_convs abs_le_iff by simp_all

lemma roundtrip_P3_bound:
  assumes "0 \<le> rgb_r c" "rgb_r c \<le> 255" "0 \<le> rgb_g c" "rgb_g c \<le> 255"
    "0 \<le> rgb_b c" "rgb_b c \<le> 255"
  shows "\<bar>rgb_r (XYZToRGB (RGBToXYZ c P3) P3) - rgb_r c\<bar> \<le> 0.069"
    and "\<bar>rgb_g (XYZToRGB (RGBToXYZ c P3) P3) - rgb_g c\<bar> \<le> 0.069"
    and "\<bar>rgb_b (XYZToRGB (RGBToXYZ c P3) P3) - rgb_b c\<bar> \<le> 0.069"
  using assms unfolding roundtrip_P3 RGBColor.select_convs abs_le_iff by simp_all

lemma roundtrip_Rec2020_bound:
  assumes "0 \<le> rgb_r c" "rgb_r c \<le> 255" "0 \<le> rgb_g c" "rgb_g c \<le> 255"
    "0 \<le> rgb_b c" "rgb_b c \<le> 255"
  shows "\<bar>rgb_r (XYZToRGB (RGBToXYZ c Rec2020) Rec2020) - rgb_r c\<bar> \<le> 0.032"
    and "\<bar>rgb_g (XYZToRGB (RGBToXYZ c Rec2020) Rec2020) - rgb_g c\<bar> \<le> 0.032"
    and "\<bar>rgb_b (XYZToRGB (RGBToXYZ c Rec2020) Rec2020) - rgb_b c\<bar> \<le> 0.032"
  using assms unfolding roundtrip_Rec2020 RGBColor.select_convs abs_le_iff by simp_all

text \<open>
  C1, as stated, fails in each of the three spaces. In sRGB the green channel of
  \<open>{255, 255, 0}\<close> comes back 0.0158 too high; in P3 the red channel of
  \<open>{255, 0, 255}\<close> comes back 0.0682 too low; in Rec2020 the red channel of
  \<open>{255, 0, 255}\<close> comes back 0.0309 too high.
\<close>

theorem roundtrip_exceeds_one_hundredth:
  "\<not> \<bar>rgb_g (XYZToRGB (RGBToXYZ \<lparr>rgb_r = 255, rgb_g = 255, rgb_b = 0\<rparr> sRGB) sRGB) - 255\<bar> \<le> 0.01
   \<and> \<not> \<bar>rgb_r (XYZToRGB (RGBToXYZ \<lparr>rgb_r = 255, rgb_g = 0, rgb_b = 255\<rparr> P3) P3) - 255\<bar> \<le> 0.01
   \<and> \<not> \<bar>rgb_r (XYZToRGB (RGBToXYZ \<lparr>rgb_r = 255, rgb_g = 0, rgb_b = 255\<rparr> Rec2020) Rec2020) - 255\<bar> \<le> 0.01"
  by (simp add: roundtrip_sRGB roundtrip_P3 roundtrip_Rec2020)

text \<open>
  C1, amended. For every RGB colour with all channels between 0 and 255 and a colour
  space among sRGB, P3 and Rec2020, \<open>RGBToXYZ\<close> followed by \<open>XYZToRGB\<close> in the same
  space returns a colour whose every channel differs from the input channel by at most
  0.07.
\<close>

theorem roundtrip_within_seven_hundredths:
  assumes "colorSpace \<in> {sRGB, P3, Rec2020}"
    and "0 \<le> rgb_r c" "rgb_r c \<le> 255"
    and "0 \<le> rgb_g c" "rgb_g c \<le> 255"
    and "0 \<le> rgb_b c" "rgb_b c \<le> 255"
  shows "\<bar>rgb_r (XYZToRGB (RGBToXYZ c colorSpace) colorSpace) - rgb_r c\<bar> \<le> 0.07
    \<and> \<bar>rgb_g (XYZToRGB (RGBToXYZ c colorSpace) colorSpace) - rgb_g c\<bar> \<le> 0.07
    \<and> \<bar>rgb_b (XYZToRGB (RGBToXYZ c colorSpace) colorSpace) - rgb_b c\<bar> \<le> 0.07"
proof -
  consider "colorSpace = sRGB" | "colorSpace = P3" | "colorSpace = Rec2020"
    using assms(1) by auto
  then show ?thesis
  proof cases
    case 1
    show ?thesis
      unfolding 1 using roundtrip_sRGB_bound [OF assms(2-7)] by simp
  next
    case 2
    show ?thesis
      unfolding 2 using roundtrip_P3_bound [OF assms(2-7)] by simp
  next
    case 3
    show ?thesis
      unfolding 3 using roundtrip_Rec2020_bound [OF assms(2-7)] by simp
  qed
qed

theorem roundtrip_within_seven_hundredths_witness:
  "P3 \<in> {sRGB, P3, Rec2020}
   \<and> \<bar>rgb_r (XYZToRGB (RGBToXYZ \<lparr>rgb_r = 255, rgb_g = 100, rgb_b = 100\<rparr> P3) P3) - 255\<bar> \<le> 0.07
   \<and> \<bar>rgb_g (XYZToRGB (RGBToXYZ \<lparr>rgb_r = 255, rgb_g = 100, rgb_b = 100\<rparr> P3) P3) - 100\<bar> \<le> 0.07
   \<and> \<bar>rgb_b (XYZToRGB (RGBToXYZ \<lparr>rgb_r = 255, rgb_g = 100, rgb_b = 100\<rparr> P3) P3) - 100\<bar> \<le> 0.07"
  using roundtrip_within_seven_hundredths [of P3 "\<lparr>rgb_r = 255, rgb_g = 100, rgb_b = 100\<rparr>"]
  by simp

subsection \<open>XYZ to xyY and back\<close>

text \<open>
  C2, as stated, fails where the luminance is zero: \<open>{x:1, y:0, z:0}\<close> has a positive
  sum, its chromaticity \<open>y\<close> is 0, and \<open>xyYToXYZ\<close> answers its zero vector, so that
  the \<open>x\<close> component comes back as 0 instead of 1.
\<close>

theorem xyY_roundtrip_loses_zero_luminance:
  "0 < xyz_x \<lparr>xyz_x = 1, xyz_y = 0, xyz_z = 0\<rparr> + xyz_y \<lparr>xyz_x = 1, xyz_y = 0, xyz_z = 0\<rparr>
       + xyz_z \<lparr>xyz_x = 1, xyz_y = 0, xyz_z = 0\<rparr>
   \<and> xyYToXYZ (XYZToxyY \<lparr>xyz_x = 1, xyz_y = 0, xyz_z = 0\<rparr>) = \<lparr>xyz_x = 0, xyz_y = 0, xyz_z = 0\<rparr>
   \<and> \<not> \<bar>xyz_x (xyYToXYZ (XYZToxyY \<lparr>xyz_x = 1, xyz_y = 0, xyz_z = 0\<rparr>))
         - xyz_x \<lparr>xyz_x = 1, xyz_y = 0, xyz_z = 0\<rparr>\<bar> \<le> 0.000001"
  by (simp add: XYZToxyY_def xyYToXYZ_def double_add_def double_div_def)

text \<open>
  A luminance that is not zero is not enough. The chromaticity coordinates carry a
  rounding error of the order of \<open>2\<^sup>-\<^sup>5\<^sup>3\<close> whatever the size of the colour, and the
  round trip multiplies \<open>1 - x - y\<close> by \<open>Y / y\<close>, which is the sum \<open>X + Y + Z\<close>. At
  \<open>{x:2\<^sup>6\<^sup>0, y:1, z:0}\<close> the sum rounds to \<open>2\<^sup>6\<^sup>0\<close>, the chromaticity is
  \<open>(1, 2\<^sup>-\<^sup>6\<^sup>0)\<close>, and \<open>z\<close> comes back as \<open>-1\<close>.
\<close>

lemma to_double_absorbs_one: "to_double (2 ^ 60 + 1) = 2 ^ 60"
proof -
  have "to_double (2 ^ 60 + 1) = of_int (round_ties_even ((2 ^ 60 + 1) / 2 ^ 8)) * 2 ^ 8"
    by (rule to_double_scaled_down) simp_all
  also have "round_ties_even ((2 ^ 60 + 1) / 2 ^ 8) = 2 ^ 52"
    by (subst round_ties_even_eval [where f = "2 ^ 52"]) simp_all
  finally show ?thesis by simp
qed

lemma xyY_roundtrip_loses_precision:
  "xyYToXYZ (XYZToxyY \<lparr>xyz_x = 2 ^ 60, xyz_y = 1, xyz_z = 0\<rparr>)
     = \<lparr>xyz_x = 2 ^ 60, xyz_y = 1, xyz_z = - 1\<rparr>"
proof -
  have p: "to_double (2 ^ 60) = 2 ^ 60" "to_double (1 / 2 ^ 60) = 1 / 2 ^ 60"
    "to_double (- (1 / 2 ^ 60)) = - (1 / 2 ^ 60)" "to_double (- 1) = - 1"
    using to_double_power_of_two [of 60] to_double_power_of_two [of "- 60"]
      to_double_power_of_two [of 0]
    by (simp_all add: power_int_minus field_simps)
  have a: "double_add (2 ^ 60) 1 = 2 ^ 60"
    unfolding double_add_def by (rule to_double_absorbs_one)
  have b: "double_add (2 ^ 60) 0 = 2 ^ 60"
    unfolding double_add_def by (simp only: add_0_right p)
  have nz: "((2::real) ^ 60 = 0) = False" "((1::real) / 2 ^ 60 = 0) = False"
    by simp_all
  have cx: "double_div (2 ^ 60) (2 ^ 60) = 1"
    unfolding double_div_def by simp
  have cy: "double_div 1 (2 ^ 60) = 1 / 2 ^ 60"
    unfolding double_div_def by (rule p)
  have r: "XYZToxyY \<lparr>xyz_x = 2 ^ 60, xyz_y = 1, xyz_z = 0\<rparr>
      = \<lparr>xy_x = 1, xy_y = 1 / 2 ^ 60, xy_Y = 1\<rparr>"
    by (simp only: XYZToxyY_def Let_def XYZColor.select_convs a b nz if_False cx cy)
  have m1: "double_mul 1 1 = 1"
    unfolding double_mul_def by simp
  have d1: "double_div 1 (1 / 2 ^ 60) = 2 ^ 60"
    unfolding double_div_def using p(1) by simp
  have s1: "double_sub 1 1 = 0"
    unfolding double_sub_def by simp
  have s2: "double_sub 0 (1 / 2 ^ 60) = - (1 / 2 ^ 60)"
    unfolding double_sub_def using p(3) by simp
  have m2: "double_mul (- (1 / 2 ^ 60)) 1 = - (1 / 2 ^ 60)"
    unfolding double_mul_def using p(3) by simp
  have d2: "double_div (- (1 / 2 ^ 60)) (1 / 2 ^ 60) = - 1"
    unfolding double_div_def using p(4) by simp
  show ?thesis
    by (simp only: r xyYToXYZ_def Let_def xyColor.select_convs nz if_False m1 d1 s1 s2 m2 d2)
qed

text \<open>
  Nor can the luminance be arbitrarily small: at \<open>{x:3, y:2\<^sup>-\<^sup>1\<^sup>0\<^sup>7\<^sup>4, z:0}\<close>, the least
  positive double, the chromaticity \<open>y\<close> underflows to 0 and the guard of \<open>xyYToXYZ\<close>
  answers the zero vector.
\<close>

lemma to_double_absorbs_least: "to_double (3 + 1 / 2 ^ 1074) = 3"
proof -
  have "to_double (3 + 1 / 2 ^ 1074)
      = of_int (round_ties_even ((3 + 1 / 2 ^ 1074) * 2 ^ 51)) / 2 ^ 51"
    by (rule to_double_scaled) simp_all
  also have "round_ties_even ((3 + 1 / 2 ^ 1074) * 2 ^ 51) = 3 * 2 ^ 51"
    by (subst round_ties_even_eval [where f = "3 * 2 ^ 51"]) simp_all
  finally show ?thesis by simp
qed

lemma xyY_roundtrip_loses_tiny_luminance:
  "xyYToXYZ (XYZToxyY \<lparr>xyz_x = 3, xyz_y = 1 / 2 ^ 1074, xyz_z = 0\<rparr>)
     = \<lparr>xyz_x = 0, xyz_y = 0, xyz_z = 0\<rparr>"
proof -
  have a: "double_add 3 (1 / 2 ^ 1074) = 3"
    unfolding double_add_def by (rule to_double_absorbs_least)
  have b: "double_add 3 0 = 3"
    unfolding double_add_def by (simp add: to_double_numeral_small)
  have nz: "((3::real) = 0) = False"
    by simp
  have cx: "double_div 3 3 = 1"
    unfolding double_div_def by simp
  have cy: "double_div (1 / 2 ^ 1074) 3 = 0"
    unfolding double_div_def by (rule to_double_underflow) simp_all
  have r: "XYZToxyY \<lparr>xyz_x = 3, xyz_y = 1 / 2 ^ 1074, xyz_z = 0\<rparr>
      = \<lparr>xy_x = 1, xy_y = 0, xy_Y = 1 / 2 ^ 1074\<rparr>"
    by (simp only: XYZToxyY_def Let_def XYZColor.select_convs a b nz if_False cx cy)
  show ?thesis
    by (simp only: r xyYToXYZ_def xyColor.select_convs refl if_True)
qed

text \<open>
  Nor can a component be negative: at \<open>{x:1, y:2\<^sup>-\<^sup>6\<^sup>0, z:-1}\<close> the exact sum is
  positive, the rounded sum is 0, and both functions answer their zero vector.
\<close>

lemma to_double_absorbs_small: "to_double (1 + 1 / 2 ^ 60) = 1"
proof -
  have "to_double (1 + 1 / 2 ^ 60)
      = of_int (round_ties_even ((1 + 1 / 2 ^ 60) * 2 ^ 52)) / 2 ^ 52"
    by (rule to_double_scaled) simp_all
  also have "round_ties_even ((1 + 1 / 2 ^ 60) * 2 ^ 52) = 2 ^ 52"
    by (subst round_ties_even_eval [where f = "2 ^ 52"]) simp_all
  finally show ?thesis by simp
qed

lemma xyY_roundtrip_loses_cancelled_sum:
  "0 < xyz_x \<lparr>xyz_x = 1, xyz_y = 1 / 2 ^ 60, xyz_z = - 1\<rparr>
       + xyz_y \<lparr>xyz_x = 1, xyz_y = 1 / 2 ^ 60, xyz_z = - 1\<rparr>
       + xyz_z \<lparr>xyz_x = 1, xyz_y = 1 / 2 ^ 60, xyz_z = - 1\<rparr>
   \<and> xyYToXYZ (XYZToxyY \<lparr>xyz_x = 1, xyz_y = 1 / 2 ^ 60, xyz_z = - 1\<rparr>)
     = \<lparr>xyz_x = 0, xyz_y = 0, xyz_z = 0\<rparr>"
proof -
  have a: "double_add 1 (1 / 2 ^ 60) = 1"
    unfolding double_add_def by (rule to_double_absorbs_small)
  have b: "double_add 1 (- 1) = 0"
    unfolding double_add_def by simp
  have r: "XYZToxyY \<lparr>xyz_x = 1, xyz_y = 1 / 2 ^ 60, xyz_z = - 1\<rparr>
      = \<lparr>xy_x = 0, xy_y = 0, xy_Y = 0\<rparr>"
    by (simp only: XYZToxyY_def Let_def XYZColor.select_convs a b refl if_True)
  have "xyYToXYZ (XYZToxyY \<lparr>xyz_x = 1, xyz_y = 1 / 2 ^ 60, xyz_z = - 1\<rparr>)
      = \<lparr>xyz_x = 0, xyz_y = 0, xyz_z = 0\<rparr>"
    by (simp only: r xyYToXYZ_def xyColor.select_convs refl if_True)
  then show ?thesis by simp
qed

text \<open>
  The error of the round trip, rounding by rounding. Throughout, \<open>9007199254740992\<close>
  is \<open>2\<^sup>5\<^sup>3\<close>. First, three facts of arithmetic: a quotient by a number close to
  1, and the division and the multiplication of a bound by a positive factor.
\<close>

lemma near_one_quotient:
  fixes P g :: real
  assumes "\<bar>g - 1\<bar> \<le> 1 / 3"
  shows "\<bar>P / g - P\<bar> \<le> 3 / 2 * \<bar>g - 1\<bar> * \<bar>P\<bar>"
proof -
  have g: "2 / 3 \<le> g" "0 < g" using assms by linarith+
  have "P / g - P = P * (1 - g) / g"
    using g by (simp add: field_simps)
  then have "\<bar>P / g - P\<bar> = \<bar>P\<bar> * \<bar>g - 1\<bar> / g"
    using g by (simp add: abs_mult abs_minus_commute)
  also have "\<dots> \<le> \<bar>P\<bar> * \<bar>g - 1\<bar> / (2 / 3)"
    using g by (intro divide_left_mono) simp_all
  finally show ?thesis by (simp add: mult_ac)
qed

lemma abs_scale:
  fixes p X k K :: real
  assumes "\<bar>p - X * k\<bar> \<le> K * k" "0 < k"
  shows "\<bar>p / k - X\<bar> \<le> K"
proof -
  have "p / k - X = (p - X * k) / k"
    using assms(2) by (simp add: field_simps)
  then have "\<bar>p / k - X\<bar> = \<bar>p - X * k\<bar> / k"
    using assms(2) by (simp add: abs_divide)
  also have "\<dots> \<le> K"
    using assms by (simp add: pos_divide_le_eq)
  finally show ?thesis .
qed

lemma abs_diff_mult:
  fixes a b k e :: real
  assumes "\<bar>a - b\<bar> \<le> e" "0 \<le> k"
  shows "\<bar>a * k - b * k\<bar> \<le> e * k"
proof -
  have "\<bar>a * k - b * k\<bar> = \<bar>a - b\<bar> * k"
    using assms(2) by (simp add: abs_mult flip: left_diff_distrib)
  then show ?thesis
    using assms by (simp add: mult_right_mono)
qed

text \<open>
  The sum, after its two roundings, is positive, at most four million, and within four
  units of rounding of the exact sum; and half the least subnormal step is below one unit
  of rounding of the exact quotient \<open>Y / sum\<close>.
\<close>

lemma chromaticity_rounding:
  fixes X Y Z :: real
  assumes X: "0 \<le> X" "X \<le> 1000000" and Z: "0 \<le> Z" "Z \<le> 1000000"
    and Y: "1 / 10 ^ 300 \<le> Y" "Y \<le> 1000000"
  defines "s \<equiv> to_double (to_double (X + Y) + Z)"
  shows "0 < s" "s \<le> 4000000"
    and "\<bar>s - (X + Y + Z)\<bar> \<le> 4 * (X + Y + Z) / 9007199254740992"
    and "2 powi (- 1075) \<le> Y / s / 9007199254740992"
proof -
  define \<eta> :: real where "\<eta> = 2 powi (- 1075)"
  define s1 where "s1 = to_double (X + Y)"
  have \<eta>: "0 \<le> \<eta>" "\<eta> \<le> Y / 360287970189639680000000"
  proof -
    show "0 \<le> \<eta>" by (simp add: \<eta>_def)
    have "\<eta> \<le> (1 / 10 ^ 300) / 360287970189639680000000"
      by (simp add: \<eta>_def power_int_minus field_simps)
    also have "\<dots> \<le> Y / 360287970189639680000000"
      using Y(1) by (intro divide_right_mono) simp_all
    finally show "\<eta> \<le> Y / 360287970189639680000000" .
  qed
  have Y0: "0 < Y"
    using Y(1) by (rule less_le_trans [rotated]) simp
  have s1: "0 \<le> s1"
    unfolding s1_def using X(1) Y0 by (intro to_double_nonneg) simp
  have "\<bar>s1 - (X + Y)\<bar> \<le> \<bar>X + Y\<bar> / 9007199254740992 + \<eta>"
    unfolding s1_def \<eta>_def by (rule to_double_error_numeral)
  moreover have "\<bar>X + Y\<bar> = X + Y"
    using X(1) Y0 by simp
  ultimately have e1: "s1 - (X + Y) \<le> (X + Y) / 9007199254740992 + \<eta>"
    "(X + Y) - s1 \<le> (X + Y) / 9007199254740992 + \<eta>"
    by (simp_all add: abs_le_iff)
  have "\<bar>s - (s1 + Z)\<bar> \<le> \<bar>s1 + Z\<bar> / 9007199254740992 + \<eta>"
    unfolding s_def s1_def \<eta>_def by (rule to_double_error_numeral)
  moreover have "\<bar>s1 + Z\<bar> = s1 + Z"
    using s1 Z(1) by simp
  ultimately have e2: "s - (s1 + Z) \<le> (s1 + Z) / 9007199254740992 + \<eta>"
    "(s1 + Z) - s \<le> (s1 + Z) / 9007199254740992 + \<eta>"
    by (simp_all add: abs_le_iff)
  have "s - (X + Y + Z) \<le> 4 * (X + Y + Z) / 9007199254740992"
    "(X + Y + Z) - s \<le> 4 * (X + Y + Z) / 9007199254740992"
    using e1 e2 X(1) Z(1) Y0 \<eta> by argo+
  then show d: "\<bar>s - (X + Y + Z)\<bar> \<le> 4 * (X + Y + Z) / 9007199254740992"
    by argo
  then show "0 < s" "s \<le> 4000000"
    using X Y(2) Z Y0 by argo+
  define yh where "yh = Y / s"
  have yh: "0 \<le> yh" "yh * s = Y"
    using Y0 \<open>0 < s\<close> by (simp_all add: yh_def)
  then have "Y \<le> yh * 4000000"
    using \<open>s \<le> 4000000\<close> mult_left_mono [of s 4000000 yh] by simp
  then have "\<eta> \<le> yh / 9007199254740992"
    using \<eta>(2) yh(1) by argo
  then show "2 powi (- 1075) \<le> Y / s / 9007199254740992"
    by (simp only: \<eta>_def yh_def)
qed

text \<open>
  A quotient by the rounded chromaticity \<open>y\<close>, rounded in turn: when the numerator
  \<open>c\<close> is within \<open>K\<close> times the exact \<open>Y / sum\<close> of \<open>T\<close> times that quotient,
  the result is within \<open>K\<close> and ten million units of rounding of \<open>T\<close>.
\<close>

lemma rounded_quotient:
  fixes c T K y yh :: real
  assumes c: "\<bar>c - T * yh\<bar> \<le> K * yh" and yh: "0 < yh"
    and g: "\<bar>y / yh - 1\<bar> \<le> 2 / 9007199254740992"
    and T: "0 \<le> T" "T \<le> 1000000" and K: "K \<le> 1"
    and \<eta>: "(2::real) powi (- 1075) \<le> 2 / 9007199254740992"
  shows "\<bar>to_double (c / y) - T\<bar> \<le> K + 10000000 / 9007199254740992"
proof -
  define C where "C = c / yh"
  define g where "g = y / yh"
  define Q where "Q = C / g"
  have g1: "\<bar>g - 1\<bar> \<le> 2 / 9007199254740992"
    using g by (simp add: g_def)
  then have g0: "0 < g" "\<bar>g - 1\<bar> \<le> 1 / 3"
    by argo+
  have CT: "\<bar>C - T\<bar> \<le> K"
    unfolding C_def using c yh by (rule abs_scale)
  then have C: "\<bar>C\<bar> \<le> 1000001"
    using T K by argo
  have "\<bar>g - 1\<bar> * \<bar>C\<bar> \<le> 2 / 9007199254740992 * 1000001"
    using g1 C by (intro mult_mono) simp_all
  moreover have "\<bar>C / g - C\<bar> \<le> 3 / 2 * \<bar>g - 1\<bar> * \<bar>C\<bar>"
    using g0(2) by (rule near_one_quotient)
  ultimately have QC: "\<bar>Q - C\<bar> \<le> 3000003 / 9007199254740992"
    unfolding Q_def by argo
  have cy: "c / y = Q"
    using yh g0(1) by (simp add: Q_def C_def g_def)
  have "\<bar>to_double Q - Q\<bar> \<le> \<bar>Q\<bar> / 9007199254740992 + 2 powi (- 1075)"
    by (rule to_double_error_numeral)
  then have "\<bar>to_double Q - Q\<bar> \<le> \<bar>Q\<bar> / 9007199254740992 + 2 / 9007199254740992"
    using \<eta> by argo
  moreover have "\<bar>Q\<bar> \<le> 1000002"
    using QC C by argo
  ultimately show ?thesis
    unfolding cy using QC CT by argo
qed

text \<open>
  The two components that \<open>xyYToXYZ\<close> computes, on the chromaticity that
  \<open>XYZToxyY\<close> returns: \<open>x\<close> within 14000002 units of rounding of \<open>X\<close> (about
  \<open>1.6e-9\<close>), \<open>z\<close> within 142000001 units of \<open>Z\<close> (about \<open>1.6e-8\<close>).
\<close>

lemma xyY_roundtrip_error:
  fixes X Y Z :: real
  assumes X: "0 \<le> X" "X \<le> 1000000" and Z: "0 \<le> Z" "Z \<le> 1000000"
    and Y: "1 / 10 ^ 300 \<le> Y" "Y \<le> 1000000"
  defines "s \<equiv> to_double (to_double (X + Y) + Z)"
  defines "x \<equiv> to_double (X / s)"
  defines "y \<equiv> to_double (Y / s)"
  shows "0 < y"
    and "\<bar>to_double (to_double (x * Y) / y) - X\<bar> \<le> 14000002 / 9007199254740992"
    and "\<bar>to_double (to_double (to_double (to_double (1 - x) - y) * Y) / y) - Z\<bar>
      \<le> 142000001 / 9007199254740992"
proof -
  define \<eta> :: real where "\<eta> = 2 powi (- 1075)"
  define xh where "xh = X / s"
  define yh where "yh = Y / s"
  have s: "0 < s" "s \<le> 4000000"
    and ds: "\<bar>s - (X + Y + Z)\<bar> \<le> 4 * (X + Y + Z) / 9007199254740992"
    and \<eta>_yh: "\<eta> \<le> yh / 9007199254740992"
    unfolding s_def \<eta>_def yh_def by (rule chromaticity_rounding [OF X Z Y])+
  have err: "\<bar>to_double t - t\<bar> \<le> \<bar>t\<bar> / 9007199254740992 + \<eta>" for t
    unfolding \<eta>_def by (rule to_double_error_numeral)
  have Y0: "0 < Y"
    using Y(1) by (rule less_le_trans [rotated]) simp
  have \<eta>0: "0 \<le> \<eta>"
    by (simp add: \<eta>_def)
  \<comment> \<open>the exact quotients by the rounded sum\<close>
  have h0: "0 \<le> xh" "0 < yh"
    using X(1) Y0 s(1) by (simp_all add: xh_def yh_def)
  have hs: "xh * s = X" "yh * s = Y"
    using s(1) by (simp_all add: xh_def yh_def)
  have "X \<le> 2 * s" "Y \<le> 2 * s"
    using ds X(1) Z(1) Y0 by argo+
  then have h2: "xh \<le> 2" "yh \<le> 2"
    using s(1) by (simp_all add: xh_def yh_def pos_divide_le_eq)
  have \<eta>2: "\<eta> \<le> 2 / 9007199254740992"
    using \<eta>_yh h2(2) by argo
  have "yh * s \<le> yh * 4000000"
    using s(2) h0(2) by (intro mult_left_mono) simp_all
  then have Ys: "Y \<le> 4000000 * yh"
    unfolding hs(2) by (simp only: mult.commute)
  have Xy: "xh * Y = X * yh"
    by (simp add: xh_def yh_def)
  have Xyh: "X * yh \<le> 1000000 * yh"
    using X(2) h0(2) by (intro mult_right_mono) simp_all
  \<comment> \<open>the two rounded quotients\<close>
  have x0: "0 \<le> x"
    unfolding x_def using h0(1) to_double_nonneg [of "X / s"] by (simp add: xh_def)
  have ex: "\<bar>x - xh\<bar> \<le> xh / 9007199254740992 + \<eta>"
    using err [of xh] h0(1) by (simp add: x_def xh_def)
  have ey: "\<bar>y - yh\<bar> \<le> 2 / 9007199254740992 * yh"
    using err [of yh] h0(2) \<eta>_yh unfolding y_def yh_def [symmetric] by argo
  then show y0: "0 < y"
    using h0(2) by argo
  have "\<bar>y - 1 * yh\<bar> \<le> 2 / 9007199254740992 * yh"
    using ey by simp
  then have g: "\<bar>y / yh - 1\<bar> \<le> 2 / 9007199254740992"
    using h0(2) by (rule abs_scale)
  have x3: "x \<le> 3" and y3: "y \<le> 3"
    using ex ey h2 \<eta>2 h0 by argo+
  \<comment> \<open>the \<open>x\<close> component\<close>
  define p where "p = to_double (x * Y)"
  define xY where "xY = x * Y"
  define q where "q = xh * Y"
  have "\<bar>x * Y - xh * Y\<bar> \<le> (xh / 9007199254740992 + \<eta>) * Y"
    using ex Y0 by (intro abs_diff_mult) simp_all
  moreover have "(xh / 9007199254740992 + \<eta>) * Y = q / 9007199254740992 + \<eta> * Y"
    by (simp add: q_def algebra_simps)
  moreover have "\<eta> * Y \<le> \<eta> * 1000000"
    using \<eta>0 Y(2) by (intro mult_left_mono)
  ultimately have xq: "\<bar>xY - q\<bar> \<le> q / 9007199254740992 + 1000000 * \<eta>"
    unfolding xY_def q_def by argo
  have "0 \<le> xY"
    using x0 Y0 by (simp add: xY_def)
  then have "\<bar>p - xY\<bar> \<le> xY / 9007199254740992 + \<eta>"
    using err [of xY] by (simp add: p_def xY_def)
  moreover have "0 \<le> q"
    using h0(1) Y0 by (simp add: q_def)
  ultimately have "\<bar>p - q\<bar> \<le> 3 * q / 9007199254740992 + 1000002 * \<eta>"
    using xq \<eta>0 by argo
  moreover have "q = X * yh" "X * yh \<le> 1000000 * yh"
    using Xy Xyh by (simp_all add: q_def)
  ultimately have "\<bar>p - X * yh\<bar> \<le> 4000002 / 9007199254740992 * yh"
    using \<eta>_yh h0(2) by argo
  then have "\<bar>to_double (p / y) - X\<bar> \<le> 4000002 / 9007199254740992 + 10000000 / 9007199254740992"
    using h0(2) g X _ \<eta>2 [unfolded \<eta>_def] by (rule rounded_quotient) simp
  then show "\<bar>to_double (to_double (x * Y) / y) - X\<bar> \<le> 14000002 / 9007199254740992"
    by (simp add: p_def)
  \<comment> \<open>the \<open>z\<close> component\<close>
  define a where "a = to_double (1 - x)"
  define b where "b = to_double (a - y)"
  define c where "c = to_double (b * Y)"
  define D where "D = 1 - xh - yh"
  have ea: "\<bar>a - (1 - x)\<bar> \<le> 6 / 9007199254740992"
    using err [of "1 - x"] x0 x3 \<eta>2 unfolding a_def by argo
  have eb: "\<bar>b - (a - y)\<bar> \<le> 10 / 9007199254740992"
    using err [of "a - y"] ea x0 x3 y0 y3 \<eta>2 unfolding b_def by argo
  have bD: "\<bar>b - D\<bar> \<le> 24 / 9007199254740992"
    using ea eb ex ey h0 h2 \<eta>2 unfolding D_def by argo
  then have b6: "\<bar>b\<bar> \<le> 6"
    using h0 h2 unfolding D_def by argo
  have "\<bar>b * Y\<bar> \<le> 6 * Y"
    using b6 Y0 by (simp add: abs_mult mult_right_mono)
  then have ec: "\<bar>c - b * Y\<bar> \<le> 6 * Y / 9007199254740992 + \<eta>"
    using err [of "b * Y"] unfolding c_def by argo
  have eD: "\<bar>b * Y - D * Y\<bar> \<le> 24 / 9007199254740992 * Y"
    using bD Y0 by (intro abs_diff_mult) simp_all
  have "D * Y = (s - X - Y) * yh"
    using s(1) by (simp add: D_def xh_def yh_def field_simps)
  moreover have "\<bar>(s - X - Y) * yh - Z * yh\<bar> \<le> 4 * (X + Y + Z) / 9007199254740992 * yh"
    using ds h0(2) by (intro abs_diff_mult) (simp_all add: algebra_simps)
  moreover have "4 * (X + Y + Z) / 9007199254740992 * yh \<le> 12000000 / 9007199254740992 * yh"
    using X(2) Y(2) Z(2) h0(2) by (intro mult_right_mono) simp_all
  ultimately have "\<bar>D * Y - Z * yh\<bar> \<le> 12000000 / 9007199254740992 * yh"
    by argo
  then have "\<bar>c - Z * yh\<bar> \<le> 132000001 / 9007199254740992 * yh"
    using ec eD Ys \<eta>_yh Y0 by argo
  then have "\<bar>to_double (c / y) - Z\<bar> \<le> 132000001 / 9007199254740992 + 10000000 / 9007199254740992"
    using h0(2) g Z _ \<eta>2 [unfolded \<eta>_def] by (rule rounded_quotient) simp
  then show "\<bar>to_double (to_double (to_double (to_double (1 - x) - y) * Y) / y) - Z\<bar>
      \<le> 142000001 / 9007199254740992"
    by (simp add: c_def b_def a_def)
qed

text \<open>
  C2, amended. For every XYZ colour whose \<open>x\<close> and \<open>z\<close> components lie between 0 and
  \<open>10\<^sup>6\<close> and whose luminance \<open>y\<close> lies between \<open>10\<^sup>-\<^sup>3\<^sup>0\<^sup>0\<close> and \<open>10\<^sup>6\<close>,
  \<open>XYZToxyY\<close> followed by \<open>xyYToXYZ\<close> returns a colour whose every component is
  within \<open>1e-6\<close> of the input's.
\<close>

theorem xyY_roundtrip_within_tolerance:
  assumes "0 \<le> xyz_x c" "xyz_x c \<le> 1000000" "0 \<le> xyz_z c" "xyz_z c \<le> 1000000"
    and "1 / 10 ^ 300 \<le> xyz_y c" "xyz_y c \<le> 1000000"
  shows "\<bar>xyz_x (xyYToXYZ (XYZToxyY c)) - xyz_x c\<bar> \<le> 0.000001
    \<and> \<bar>xyz_y (xyYToXYZ (XYZToxyY c)) - xyz_y c\<bar> \<le> 0.000001
    \<and> \<bar>xyz_z (xyYToXYZ (XYZToxyY c)) - xyz_z c\<bar> \<le> 0.000001"
proof -
  define s where "s = to_double (to_double (xyz_x c + xyz_y c) + xyz_z c)"
  define x where "x = to_double (xyz_x c / s)"
  define y where "y = to_double (xyz_y c / s)"
  have "0 < s"
    unfolding s_def using assms by (rule chromaticity_rounding(1))
  then have r: "XYZToxyY c = \<lparr>xy_x = x, xy_y = y, xy_Y = xyz_y c\<rparr>"
    by (simp add: XYZToxyY_def Let_def double_add_def double_div_def s_def x_def y_def)
  have "0 < y"
    unfolding y_def s_def using assms by (rule xyY_roundtrip_error(1))
  then have t: "xyYToXYZ (XYZToxyY c) =
      \<lparr>xyz_x = to_double (to_double (x * xyz_y c) / y), xyz_y = xyz_y c,
       xyz_z = to_double (to_double (to_double (to_double (1 - x) - y) * xyz_y c) / y)\<rparr>"
    by (simp add: r xyYToXYZ_def Let_def double_div_def double_mul_def double_sub_def)
  have "\<bar>to_double (to_double (x * xyz_y c) / y) - xyz_x c\<bar> \<le> 14000002 / 9007199254740992"
    unfolding x_def y_def s_def using assms by (rule xyY_roundtrip_error(2))
  moreover have "\<bar>to_double (to_double (to_double (to_double (1 - x) - y) * xyz_y c) / y) - xyz_z c\<bar>
      \<le> 142000001 / 9007199254740992"
    unfolding x_def y_def s_def using assms by (rule xyY_roundtrip_error(3))
  ultimately show ?thesis
    unfolding t by simp
qed

theorem xyY_roundtrip_within_tolerance_witness:
  "\<bar>xyz_x (xyYToXYZ (XYZToxyY \<lparr>xyz_x = 1, xyz_y = 1, xyz_z = 2\<rparr>)) - 1\<bar> \<le> 0.000001
   \<and> \<bar>xyz_y (xyYToXYZ (XYZToxyY \<lparr>xyz_x = 1, xyz_y = 1, xyz_z = 2\<rparr>)) - 1\<bar> \<le> 0.000001
   \<and> \<bar>xyz_z (xyYToXYZ (XYZToxyY \<lparr>xyz_x = 1, xyz_y = 1, xyz_z = 2\<rparr>)) - 2\<bar> \<le> 0.000001"
  using xyY_roundtrip_within_tolerance [of "\<lparr>xyz_x = 1, xyz_y = 1, xyz_z = 2\<rparr>"]
  by simp

subsection \<open>Chromaticity coordinates of a colour\<close>

text \<open>
  The two quotients are rounded one by one, so that their sum can exceed 1 by a unit in
  the last place. The colour \<open>{x:5, y:9\<cdot>2\<^sup>-\<^sup>5\<^sup>1, z:0}\<close> is one: the sum rounds to
  \<open>5 + 2\<^sup>-\<^sup>4\<^sup>8\<close>, and the quotients to \<open>9007199254740986\<cdot>2\<^sup>-\<^sup>5\<^sup>3\<close> and
  \<open>8106479329266887\<cdot>2\<^sup>-\<^sup>1\<^sup>0\<^sup>3\<close>.
\<close>

lemma rounded_sum_example: "to_double (5 + 9 / 2 ^ 51) = 5 + 1 / 2 ^ 48"
proof -
  have "to_double (5 + 9 / 2 ^ 51) = of_int (round_ties_even ((5 + 9 / 2 ^ 51) * 2 ^ 50)) / 2 ^ 50"
    by (rule to_double_scaled) simp_all
  also have "round_ties_even ((5 + 9 / 2 ^ 51) * 2 ^ 50) = 5 * 2 ^ 50 + 4"
    by (subst round_ties_even_eval [where f = "5 * 2 ^ 50 + 4"]) simp_all
  finally show ?thesis by simp
qed

lemma rounded_x_example: "to_double (5 / (5 + 1 / 2 ^ 48)) = 9007199254740986 / 2 ^ 53"
proof -
  have "to_double (5 / (5 + 1 / 2 ^ 48))
      = of_int (round_ties_even (5 / (5 + 1 / 2 ^ 48) * 2 ^ 53)) / 2 ^ 53"
    by (rule to_double_scaled) simp_all
  also have "round_ties_even (5 / (5 + 1 / 2 ^ 48) * 2 ^ 53) = 9007199254740986"
    by (subst round_ties_even_eval [where f = 9007199254740985]) simp_all
  finally show ?thesis by simp
qed

lemma rounded_y_example: "to_double (9 / 2 ^ 51 / (5 + 1 / 2 ^ 48)) = 8106479329266887 / 2 ^ 103"
proof -
  have "to_double (9 / 2 ^ 51 / (5 + 1 / 2 ^ 48))
      = of_int (round_ties_even (9 / 2 ^ 51 / (5 + 1 / 2 ^ 48) * 2 ^ 103)) / 2 ^ 103"
    by (rule to_double_scaled) simp_all
  also have "round_ties_even (9 / 2 ^ 51 / (5 + 1 / 2 ^ 48) * 2 ^ 103) = 8106479329266887"
    by (subst round_ties_even_eval [where f = 8106479329266887]) simp_all
  finally show ?thesis by simp
qed

lemma small_doubles: "is_double 5" "is_double (9 / 2 ^ 51)" "is_double 0"
proof -
  have "to_double (of_int 5 * 2 powi 0) = of_int 5 * 2 powi 0"
    by (rule to_double_representable) simp_all
  then show "is_double 5" by (simp add: is_double_def)
  have "to_double (of_int 9 * 2 powi (- 51)) = of_int 9 * 2 powi (- 51)"
    by (rule to_double_representable) simp_all
  moreover have "(9 / 2 ^ 51 :: real) < 2 ^ 1024"
    by (rule less_le_trans [of _ 1]) simp_all
  ultimately show "is_double (9 / 2 ^ 51)" by (simp add: is_double_def power_int_minus field_simps)
  show "is_double 0" by (simp add: is_double_def)
qed

text \<open>
  C10, as stated, fails at that colour: no component is negative, the sum is positive, and
  the two chromaticity coordinates add up to more than 1.
\<close>

theorem XYZToxyY_chromaticity_sum_exceeds_one:
  "is_double 5 \<and> is_double (9 / 2 ^ 51) \<and> is_double 0
   \<and> 0 < (5 + 9 / 2 ^ 51 + 0 :: real)
   \<and> XYZToxyY \<lparr>xyz_x = 5, xyz_y = 9 / 2 ^ 51, xyz_z = 0\<rparr>
       = \<lparr>xy_x = 9007199254740986 / 2 ^ 53, xy_y = 8106479329266887 / 2 ^ 103, xy_Y = 9 / 2 ^ 51\<rparr>
   \<and> \<not> xy_x (XYZToxyY \<lparr>xyz_x = 5, xyz_y = 9 / 2 ^ 51, xyz_z = 0\<rparr>)
         + xy_y (XYZToxyY \<lparr>xyz_x = 5, xyz_y = 9 / 2 ^ 51, xyz_z = 0\<rparr>) \<le> 1"
proof -
  have s: "to_double (5 + 1 / 2 ^ 48) = 5 + 1 / 2 ^ 48"
    using to_double_idem [of "5 + 9 / 2 ^ 51"] by (simp only: rounded_sum_example)
  have a: "double_add 5 (9 / 2 ^ 51) = 5 + 1 / 2 ^ 48"
    unfolding double_add_def by (rule rounded_sum_example)
  have b: "double_add (5 + 1 / 2 ^ 48) 0 = 5 + 1 / 2 ^ 48"
    unfolding double_add_def by (simp only: add_0_right s)
  have nz: "(5 + 1 / 2 ^ 48 = (0::real)) = False"
    by simp
  have cx: "double_div 5 (5 + 1 / 2 ^ 48) = 9007199254740986 / 2 ^ 53"
    unfolding double_div_def by (rule rounded_x_example)
  have cy: "double_div (9 / 2 ^ 51) (5 + 1 / 2 ^ 48) = 8106479329266887 / 2 ^ 103"
    unfolding double_div_def by (rule rounded_y_example)
  have r: "XYZToxyY \<lparr>xyz_x = 5, xyz_y = 9 / 2 ^ 51, xyz_z = 0\<rparr>
       = \<lparr>xy_x = 9007199254740986 / 2 ^ 53, xy_y = 8106479329266887 / 2 ^ 103, xy_Y = 9 / 2 ^ 51\<rparr>"
    by (simp only: XYZToxyY_def Let_def XYZColor.select_convs a b nz if_False cx cy)
  show ?thesis
    unfolding r using small_doubles by simp
qed

text \<open>
  A bound for the sum of two rounded quotients by \<open>s\<close> whose numerators add up to
  \<open>t\<close>, where \<open>s\<close> is at least \<open>t\<close> less one unit of rounding.
\<close>

lemma unit_roundoff_sum:
  fixes t s :: real
  assumes "0 \<le> t" "0 < s" "t * (1 - 1 / 2 ^ 53) \<le> s"
  shows "t / s * (1 + 1 / 2 ^ 53) + 2 * 2 powi (- 1075) \<le> 1 + 1 / 2 ^ 51"
proof -
  have "t * (1 - 1 / 2 ^ 53) * (1 + 1 / 2 ^ 52) \<le> s * (1 + 1 / 2 ^ 52)"
    using assms(3) by (intro mult_right_mono) simp_all
  moreover have "(1::real) \<le> (1 - 1 / 2 ^ 53) * (1 + 1 / 2 ^ 52)"
    by simp
  then have "t * 1 \<le> t * ((1 - 1 / 2 ^ 53) * (1 + 1 / 2 ^ 52))"
    using assms(1) by (intro mult_left_mono)
  ultimately have "t \<le> s * (1 + 1 / 2 ^ 52)"
    by (simp add: mult.assoc)
  then have q: "t / s \<le> 1 + 1 / 2 ^ 52"
    using assms(2) by (simp add: pos_divide_le_eq mult.commute)
  have "t / s * (1 + 1 / 2 ^ 53) \<le> (1 + 1 / 2 ^ 52) * (1 + 1 / 2 ^ 53)"
    using q by (intro mult_right_mono) simp_all
  moreover have "(1 + 1 / 2 ^ 52) * (1 + 1 / 2 ^ 53) + 2 * 2 powi (- 1075) \<le> (1 + 1 / 2 ^ 51 :: real)"
    by (simp add: power_int_minus)
  ultimately show ?thesis by linarith
qed

text \<open>
  C10, amended. For an XYZ colour with no negative component and a positive sum, the
  chromaticity coordinates that \<open>XYZToxyY\<close> returns lie between 0 and 1, their sum is
  at most \<open>1 + 2\<^sup>-\<^sup>5\<^sup>1\<close>, and the luminance field is the input's \<open>y\<close> component.
  (Where the sum of the components overflows, which \<open>to_double\<close> does not model, the
  quotients of the program are both 0.)
\<close>

theorem XYZToxyY_chromaticity_within_rounding:
  assumes d: "is_double (xyz_x c)" "is_double (xyz_y c)" "is_double (xyz_z c)"
    and nn: "0 \<le> xyz_x c" "0 \<le> xyz_y c" "0 \<le> xyz_z c"
    and pos: "0 < xyz_x c + xyz_y c + xyz_z c"
  shows "0 \<le> xy_x (XYZToxyY c) \<and> xy_x (XYZToxyY c) \<le> 1
    \<and> 0 \<le> xy_y (XYZToxyY c) \<and> xy_y (XYZToxyY c) \<le> 1
    \<and> xy_x (XYZToxyY c) + xy_y (XYZToxyY c) \<le> 1 + 1 / 2 ^ 51
    \<and> xy_Y (XYZToxyY c) = xyz_y c"
proof -
  define X where "X = xyz_x c"
  define Y where "Y = xyz_y c"
  define Z where "Z = xyz_z c"
  define s1 where "s1 = to_double (X + Y)"
  define s where "s = to_double (s1 + Z)"
  have fx: "to_double X = X" and fy: "to_double Y = Y" and fz: "to_double Z = Z"
    using d by (simp_all add: is_double_def X_def Y_def Z_def)
  have nX: "0 \<le> X" and nY: "0 \<le> Y" and nZ: "0 \<le> Z"
    using nn by (simp_all add: X_def Y_def Z_def)
  have s1_X: "X \<le> s1"
    using to_double_mono [of X "X + Y"] nX nY by (simp add: s1_def fx)
  have s1_Y: "Y \<le> s1"
    using to_double_mono [of Y "X + Y"] nX nY by (simp add: s1_def fy)
  have s1_nn: "0 \<le> s1"
    using s1_X nX by linarith
  have s_s1: "s1 \<le> s"
    using to_double_mono [of s1 "s1 + Z"] s1_nn nZ by (simp add: s_def s1_def to_double_idem)
  have s_Z: "Z \<le> s"
    using to_double_mono [of Z "s1 + Z"] s1_nn nZ by (simp add: s_def fz)
  have "0 < X \<or> 0 < Y \<or> 0 < Z"
    using pos nX nY nZ by (simp add: X_def Y_def Z_def) linarith
  then have s_pos: "0 < s"
    using s1_X s1_Y s_s1 s_Z by linarith
  have r: "XYZToxyY c = \<lparr>xy_x = to_double (X / s), xy_y = to_double (Y / s), xy_Y = Y\<rparr>"
    using s_pos
    by (simp add: XYZToxyY_def double_add_def double_div_def Let_def X_def Y_def Z_def s_def s1_def)
  have qx: "0 \<le> X / s" "X / s \<le> 1" and qy: "0 \<le> Y / s" "Y / s \<le> 1"
    using nX nY s_pos s1_X s1_Y s_s1 by simp_all
  have bx: "0 \<le> to_double (X / s)" "to_double (X / s) \<le> 1"
    using to_double_nonneg [OF qx(1)] to_double_mono [OF qx] by simp_all
  have byy: "0 \<le> to_double (Y / s)" "to_double (Y / s) \<le> 1"
    using to_double_nonneg [OF qy(1)] to_double_mono [OF qy] by simp_all
  \<comment> \<open>the sum of the two quotients\<close>
  have "\<bar>s1 - (X + Y)\<bar> \<le> \<bar>X + Y\<bar> / 2 ^ 53"
    unfolding s1_def using fx fy by (rule double_add_error)
  then have "(X + Y) - (X + Y) / 2 ^ 53 \<le> s1"
    using nX nY by linarith
  moreover have "(X + Y) * (1 - 1 / 2 ^ 53) = (X + Y) - (X + Y) / 2 ^ 53"
    by (simp only: right_diff_distrib mult_1_right times_divide_eq_right)
  ultimately have "(X + Y) * (1 - 1 / 2 ^ 53) \<le> s1"
    by (simp only:)
  then have t: "(X + Y) * (1 - 1 / 2 ^ 53) \<le> s"
    using s_s1 by linarith
  have "to_double (X / s) \<le> X / s + (X / s / 2 ^ 53 + 2 powi (- 1075))"
    using to_double_error [of "X / s"] qx(1) by linarith
  moreover have "to_double (Y / s) \<le> Y / s + (Y / s / 2 ^ 53 + 2 powi (- 1075))"
    using to_double_error [of "Y / s"] qy(1) by linarith
  ultimately have "to_double (X / s) + to_double (Y / s)
      \<le> (X + Y) / s * (1 + 1 / 2 ^ 53) + 2 * 2 powi (- 1075)"
    by (simp add: add_divide_distrib algebra_simps)
  also have "\<dots> \<le> 1 + 1 / 2 ^ 51"
    using nX nY s_pos t by (intro unit_roundoff_sum) simp_all
  finally show ?thesis
    using bx byy by (simp add: r Y_def)
qed

theorem XYZToxyY_chromaticity_within_rounding_witness:
  "is_double 1 \<and> is_double 2
   \<and> 0 \<le> xy_x (XYZToxyY \<lparr>xyz_x = 1, xyz_y = 1, xyz_z = 2\<rparr>)
   \<and> xy_x (XYZToxyY \<lparr>xyz_x = 1, xyz_y = 1, xyz_z = 2\<rparr>)
       + xy_y (XYZToxyY \<lparr>xyz_x = 1, xyz_y = 1, xyz_z = 2\<rparr>) \<le> 1 + 1 / 2 ^ 51
   \<and> xy_Y (XYZToxyY \<lparr>xyz_x = 1, xyz_y = 1, xyz_z = 2\<rparr>) = 1"
  using XYZToxyY_chromaticity_within_rounding [of "\<lparr>xyz_x = 1, xyz_y = 1, xyz_z = 2\<rparr>"]
  by (simp add: is_double_def to_double_numeral_small)

subsection \<open>LAB of the reference white\<close>

text \<open>
  C8. \<open>XYZToLAB\<close> maps the D65 white point \<open>{x: 0.95047, y: 1, z: 1.08883}\<close> to
  \<open>l = 100\<close>, \<open>a = 0\<close>, \<open>b = 0\<close>: each of the three quotients by the reference
  white is exactly 1, and \<open>labF 1 = 1\<close>.
\<close>

theorem XYZToLAB_white_point:
  "XYZToLAB \<lparr>xyz_x = 0.95047, xyz_y = 1, xyz_z = 1.08883\<rparr> = \<lparr>lab_l = 100, lab_a = 0, lab_b = 0\<rparr>"
  by (simp add: XYZToLAB_def labF_def Math_pow_def Let_def)

subsection \<open>Colour temperature\<close>

lemma Math_pow_3: "Math_pow n 3 = n ^ 3"
  by (simp add: Math_pow_def)

lemma Math_pow_2: "Math_pow n 2 = n ^ 2"
  by (simp add: Math_pow_def)

text \<open>At the singularity the result is not a finite number.\<close>

lemma getColorTemperature_singular: "getColorTemperature x 0.1858 = None"
  by (simp add: getColorTemperature_def js_div_def)

text \<open>
  C5. For \<open>y \<noteq> 0.1858\<close>, \<open>getColorTemperature x y\<close> is McCamy's cubic
  \<open>449 n\<^sup>3 + 3525 n\<^sup>2 + 6823.3 n + 5520.33\<close> at \<open>n = (x - 0.3320) / (0.1858 - y)\<close>,
  for every real \<open>x\<close> and \<open>y\<close>, however close \<open>y\<close> is to 0.1858 and whatever the
  sign of \<open>n\<close>.
\<close>

theorem getColorTemperature_is_McCamy_cubic:
  assumes "y \<noteq> 0.1858"
  shows "getColorTemperature x y =
    (let n = (x - 0.3320) / (0.1858 - y)
     in Some (449 * n ^ 3 + 3525 * n ^ 2 + 6823.3 * n + 5520.33))"
  using assms
  by (simp add: getColorTemperature_def js_div_def Math_pow_3 Math_pow_2 Let_def)

theorem getColorTemperature_is_McCamy_cubic_witness:
  "(0::real) \<noteq> 0.1858 \<and> getColorTemperature 0.1462 0 = Some 1773.03"
  using getColorTemperature_is_McCamy_cubic [of 0 "0.1462"]
  by (simp add: Let_def)

subsection \<open>Gamma correction and back\<close>

text \<open>
  The exponent \<open>1 / 2.4\<close> is \<open>5 / 12\<close>, so that a comparison of \<open>v powr (5 / 12)\<close>
  with a rational \<open>q\<close> is the comparison of \<open>v\<^sup>5\<close> with \<open>q\<^sup>1\<^sup>2\<close>.
\<close>

lemma twelfth_root_of_power:
  assumes "0 \<le> (q::real)"
  shows "(q ^ 12) powr (1 / 12) = q"
proof -
  have "q ^ 12 = q powr 12"
    using assms by simp
  then have "(q ^ 12) powr (1 / 12) = (q powr 12) powr (1 / 12)"
    by (simp only:)
  also have "\<dots> = q powr (12 * (1 / 12))"
    by (rule powr_powr)
  also have "\<dots> = q"
    using assms by simp
  finally show ?thesis .
qed

lemma twelfth_root_of_fifth_power:
  assumes "0 \<le> (v::real)"
  shows "(v ^ 5) powr (1 / 12) = v powr (5 / 12)"
proof -
  have "v ^ 5 = v powr 5"
    using assms by simp
  then have "(v ^ 5) powr (1 / 12) = (v powr 5) powr (1 / 12)"
    by (simp only:)
  also have "\<dots> = v powr (5 * (1 / 12))"
    by (rule powr_powr)
  also have "\<dots> = v powr (5 / 12)"
    by simp
  finally show ?thesis .
qed

lemma powr_5_12_le:
  assumes "0 \<le> v" "0 \<le> q" "v ^ 5 \<le> q ^ 12"
  shows "v powr (5 / 12) \<le> (q::real)"
proof -
  have "(v ^ 5) powr (1 / 12) \<le> (q ^ 12) powr (1 / 12)"
    using assms by (intro powr_mono2) simp_all
  then show ?thesis
    using assms by (simp only: twelfth_root_of_power twelfth_root_of_fifth_power)
qed

lemma powr_5_12_ge:
  assumes "0 \<le> v" "0 \<le> q" "q ^ 12 \<le> v ^ 5"
  shows "(q::real) \<le> v powr (5 / 12)"
proof -
  have "(q ^ 12) powr (1 / 12) \<le> (v ^ 5) powr (1 / 12)"
    using assms by (intro powr_mono2) simp_all
  then show ?thesis
    using assms by (simp only: twelfth_root_of_power twelfth_root_of_fifth_power)
qed

lemma powr_5_12_less:
  assumes "0 \<le> v" "0 \<le> q" "v ^ 5 < q ^ 12"
  shows "v powr (5 / 12) < (q::real)"
proof -
  have "(v ^ 5) powr (1 / 12) < (q ^ 12) powr (1 / 12)"
    using assms by (intro powr_less_mono2) simp_all
  then show ?thesis
    using assms by (simp only: twelfth_root_of_power twelfth_root_of_fifth_power)
qed

lemma powr_5_12_greater:
  assumes "0 \<le> v" "0 \<le> q" "q ^ 12 < v ^ 5"
  shows "(q::real) < v powr (5 / 12)"
proof -
  have "(q ^ 12) powr (1 / 12) < (v ^ 5) powr (1 / 12)"
    using assms by (intro powr_less_mono2) simp_all
  then show ?thesis
    using assms by (simp only: twelfth_root_of_power twelfth_root_of_fifth_power)
qed

text \<open>The two branches of \<open>gammaCorrect\<close>, and the round trip on each side.\<close>

lemma gammaCorrect_high:
  "0.0031308 < v \<Longrightarrow> gammaCorrect v = 1.055 * v powr (5 / 12) - 0.055"
  by (simp add: gammaCorrect_def Math_pow_def)

lemma gamma_roundtrip_linear:
  assumes "v \<le> 0.0031308"
  shows "gammaUncorrect (gammaCorrect v) = v"
proof -
  have "gammaCorrect v = 12.92 * v"
    using assms by (simp add: gammaCorrect_def)
  moreover have "12.92 * v \<le> 0.04045"
    using assms by simp
  ultimately show ?thesis
    by (simp add: gammaUncorrect_def)
qed

lemma gamma_roundtrip_power:
  assumes "0.0031308 < v" "0.04045 < gammaCorrect v"
  shows "gammaUncorrect (gammaCorrect v) = v"
proof -
  define p where "p = v powr (5 / 12)"
  have v: "0 < v" using assms(1) by simp
  then have p: "0 < p" by (simp add: p_def)
  have g: "gammaCorrect v = 1.055 * p - 0.055"
    using assms(1) by (simp add: gammaCorrect_high p_def)
  have "(gammaCorrect v + 0.055) / 1.055 = p"
    by (simp add: g)
  then have "gammaUncorrect (gammaCorrect v) = Math_pow p 2.4"
    using assms(2) by (simp add: gammaUncorrect_def)
  also have "\<dots> = p powr 2.4"
    using p by (simp add: Math_pow_def)
  also have "\<dots> = v powr ((5 / 12) * 2.4)"
    unfolding p_def by (rule powr_powr)
  also have "\<dots> = v"
    using v by simp
  finally show ?thesis .
qed

lemma gammaCorrect_above_threshold:
  assumes "0.0031308073 \<le> v"
  shows "0.04045 < gammaCorrect v"
proof -
  have v: "0.0031308 < v" "0 \<le> v" using assms by simp_all
  have "(0.09545 / 1.055 :: real) ^ 12 < 0.0031308073 ^ 5"
    by (simp add: power_divide)
  also have "\<dots> \<le> v ^ 5"
    using assms by (intro power_mono) simp_all
  finally have "0.09545 / 1.055 < v powr (5 / 12)"
    using v(2) by (intro powr_5_12_greater) simp_all
  then show ?thesis
    using v(1) by (simp add: gammaCorrect_high)
qed

text \<open>
  Between the two thresholds the value is encoded by the power branch and decoded by the
  linear one. The deviation \<open>v - (1.055 * v powr (5 / 12) - 0.055) / 12.92\<close> grows with \<open>v\<close>
  there, since the slope of the power branch is below 12.92 from 0.0031308 on; so it lies
  between its values at the two ends of the interval.
\<close>

lemma twelfth_root_of_seventh_power:
  assumes "0 \<le> (v::real)"
  shows "(v ^ 7) powr (1 / 12) = v powr (7 / 12)"
proof -
  have "v ^ 7 = v powr 7"
    using assms by simp
  then have "(v ^ 7) powr (1 / 12) = (v powr 7) powr (1 / 12)"
    by (simp only:)
  also have "\<dots> = v powr (7 * (1 / 12))"
    by (rule powr_powr)
  also have "\<dots> = v powr (7 / 12)"
    by simp
  finally show ?thesis .
qed

lemma powr_7_12_ge:
  assumes "0 \<le> v" "0 \<le> q" "q ^ 12 \<le> v ^ 7"
  shows "(q::real) \<le> v powr (7 / 12)"
proof -
  have "(q ^ 12) powr (1 / 12) \<le> (v ^ 7) powr (1 / 12)"
    using assms by (intro powr_mono2) simp_all
  then show ?thesis
    using assms by (simp only: twelfth_root_of_power twelfth_root_of_seventh_power)
qed

lemma gamma_slope_below_linear:
  fixes x :: real
  assumes "0.0031308 \<le> x"
  shows "1.055 * (5 / 12 * x powr (5 / 12 - 1)) / 12.92 \<le> 1"
proof -
  have x: "0 < x" using assms by simp
  have "(0.0345 :: real) ^ 12 \<le> 0.0031308 ^ 7"
    by (simp add: power_divide)
  also have "\<dots> \<le> x ^ 7"
    using assms by (intro power_mono) simp_all
  finally have c: "0.0345 \<le> x powr (7 / 12)"
    using x by (intro powr_7_12_ge) simp_all
  have "x powr (5 / 12 - 1) = x powr (- (7 / 12))"
    by simp
  also have "\<dots> = 1 / x powr (7 / 12)"
    by (rule powr_minus_divide)
  also have "\<dots> \<le> 1 / 0.0345"
    using c x by (intro divide_left_mono) simp_all
  finally have "x powr (5 / 12 - 1) \<le> 1 / 0.0345" .
  then show ?thesis by simp
qed

lemma gamma_deviation_mono:
  fixes v w :: real
  assumes "0.0031308 \<le> v" "v \<le> w"
  shows "v - (1.055 * v powr (5 / 12) - 0.055) / 12.92
    \<le> w - (1.055 * w powr (5 / 12) - 0.055) / 12.92"
proof (rule DERIV_nonneg_imp_nondecreasing
    [where f = "\<lambda>x. x - (1.055 * x powr (5 / 12) - 0.055) / 12.92"])
  show "v \<le> w" by fact
next
  fix x :: real
  assume "v \<le> x" "x \<le> w"
  then have x: "0.0031308 \<le> x" "0 < x"
    using assms(1) by simp_all
  have "((\<lambda>x. x - (1.055 * x powr (5 / 12) - 0.055) / 12.92) has_real_derivative
      1 - 1.055 * (5 / 12 * x powr (5 / 12 - 1)) / 12.92) (at x)"
    using x(2) by (auto intro!: derivative_eq_intros)
  moreover have "0 \<le> 1 - 1.055 * (5 / 12 * x powr (5 / 12 - 1)) / 12.92"
    using gamma_slope_below_linear [OF x(1)] by simp
  ultimately show "\<exists>y. ((\<lambda>x. x - (1.055 * x powr (5 / 12) - 0.055) / 12.92)
      has_real_derivative y) (at x) \<and> 0 \<le> y"
    by blast
qed

lemma gamma_roundtrip_sliver:
  assumes "0.0031308 < v" "gammaCorrect v \<le> 0.04045"
  shows "\<bar>gammaUncorrect (gammaCorrect v) - v\<bar> \<le> 0.0000000024"
proof -
  have g: "gammaCorrect v = 1.055 * v powr (5 / 12) - 0.055"
    using assms(1) by (rule gammaCorrect_high)
  have u: "gammaUncorrect (gammaCorrect v) = gammaCorrect v / 12.92"
    using assms(2) by (simp add: gammaUncorrect_def)
  have "\<not> 0.0031308073 \<le> v"
    using gammaCorrect_above_threshold [of v] assms(2) by auto
  then have hi: "v \<le> 0.0031308073" by simp
  \<comment> \<open>the deviation at the lower end of the interval\<close>
  have "(0.0031308 :: real) ^ 5 \<le> ((12.92 * 0.0031308 + 0.055) / 1.055) ^ 12"
    by (simp add: power_divide)
  then have "(0.0031308 :: real) powr (5 / 12) \<le> (12.92 * 0.0031308 + 0.055) / 1.055"
    by (intro powr_5_12_le) simp_all
  then have "0 \<le> 0.0031308 - (1.055 * (0.0031308 :: real) powr (5 / 12) - 0.055) / 12.92"
    by simp
  also have "\<dots> \<le> v - (1.055 * v powr (5 / 12) - 0.055) / 12.92"
    using assms(1) by (intro gamma_deviation_mono) simp_all
  finally have lo: "0 \<le> v - gammaCorrect v / 12.92"
    by (simp only: g)
  \<comment> \<open>the deviation at the upper end of the interval\<close>
  have "(0.09545 / 1.055 :: real) ^ 12 \<le> 0.0031308073 ^ 5"
    by (simp add: power_divide)
  then have "0.09545 / 1.055 \<le> (0.0031308073 :: real) powr (5 / 12)"
    by (intro powr_5_12_ge) simp_all
  then have "0.04045 \<le> 1.055 * (0.0031308073 :: real) powr (5 / 12) - 0.055"
    by simp
  then have "0.04045 / 12.92 \<le> (1.055 * (0.0031308073 :: real) powr (5 / 12) - 0.055) / 12.92"
    by (intro divide_right_mono) simp_all
  moreover have "0.0031308073 - 0.04045 / 12.92 \<le> (0.0000000024 :: real)"
    by simp
  ultimately have top:
    "0.0031308073 - (1.055 * (0.0031308073 :: real) powr (5 / 12) - 0.055) / 12.92
      \<le> 0.0000000024"
    by linarith
  have "v - (1.055 * v powr (5 / 12) - 0.055) / 12.92
      \<le> 0.0031308073 - (1.055 * (0.0031308073 :: real) powr (5 / 12) - 0.055) / 12.92"
    using assms(1) hi by (intro gamma_deviation_mono) simp_all
  also note top
  finally have up: "v - gammaCorrect v / 12.92 \<le> 0.0000000024"
    by (simp only: g)
  show ?thesis
    unfolding u using lo up by simp
qed

text \<open>The point of the counterexample: it is decoded by the linear branch, and too low.\<close>

lemma sliver_point_below_knee: "(0.003130805::real) ^ 5 \<le> (0.09545 / 1.055) ^ 12"
  by (simp add: power_divide)

lemma sliver_point_off_by_more:
  "(0.003130805::real) ^ 5 < ((12.92 * (0.003130805 - 0.000000001) + 0.055) / 1.055) ^ 12"
  by (simp add: power_divide)

text \<open>
  C4, as stated, fails just above the threshold of \<open>gammaCorrect\<close>. The two branches do
  not meet at 0.0031308: the power branch starts at 0.0404499075, below the threshold
  0.04045 of \<open>gammaUncorrect\<close>. So for \<open>v\<close> from 0.0031308 to 0.0031308073 the value
  is encoded by the power branch and decoded by the linear one, and comes back about
  \<open>2.3e-9\<close> too low: at \<open>v = 0.003130805\<close>, more than \<open>1e-9\<close> too low.
\<close>

theorem gamma_roundtrip_off_above_threshold:
  "0 \<le> (0.003130805::real) \<and> (0.003130805::real) \<le> 1
   \<and> \<not> \<bar>gammaUncorrect (gammaCorrect 0.003130805) - 0.003130805\<bar> \<le> 0.000000001"
proof -
  define p :: real where "p = 0.003130805 powr (5 / 12)"
  have g: "gammaCorrect 0.003130805 = 1.055 * p - 0.055"
    by (simp add: gammaCorrect_high p_def)
  have "p \<le> 0.09545 / 1.055"
    unfolding p_def using sliver_point_below_knee by (intro powr_5_12_le) simp_all
  then have "1.055 * p - 0.055 \<le> 0.04045"
    by simp
  then have "gammaCorrect 0.003130805 \<le> 0.04045"
    by (simp only: g)
  then have "gammaUncorrect (gammaCorrect 0.003130805) = gammaCorrect 0.003130805 / 12.92"
    by (simp only: gammaUncorrect_def if_True)
  then have u: "gammaUncorrect (gammaCorrect 0.003130805) = (1.055 * p - 0.055) / 12.92"
    by (simp only: g)
  have "p < (12.92 * (0.003130805 - 0.000000001) + 0.055) / 1.055"
    unfolding p_def using sliver_point_off_by_more by (intro powr_5_12_less) simp_all
  then have "(1.055 * p - 0.055) / 12.92 < 0.003130805 - 0.000000001"
    by simp
  then have "\<not> \<bar>(1.055 * p - 0.055) / 12.92 - 0.003130805\<bar> \<le> 0.000000001"
    by simp
  then show ?thesis
    unfolding u by simp
qed

text \<open>
  C4, amended. For every \<open>v\<close> from 0 to 1, \<open>gammaUncorrect (gammaCorrect v)\<close> differs
  from \<open>v\<close> by at most \<open>2.4e-9\<close>, and it is \<open>v\<close> itself (in exact arithmetic) when
  \<open>v \<le> 0.0031308\<close> or \<open>v \<ge> 0.0031308073\<close>.
\<close>

theorem gamma_roundtrip_within_tolerance:
  assumes "0 \<le> v" "v \<le> 1"
  shows "\<bar>gammaUncorrect (gammaCorrect v) - v\<bar> \<le> 0.0000000024
    \<and> (v \<le> 0.0031308 \<or> 0.0031308073 \<le> v \<longrightarrow> gammaUncorrect (gammaCorrect v) = v)"
proof -
  consider "v \<le> 0.0031308" | "0.0031308 < v" "0.04045 < gammaCorrect v"
    | "0.0031308 < v" "gammaCorrect v \<le> 0.04045"
    by linarith
  then show ?thesis
  proof cases
    case 1
    then show ?thesis by (simp add: gamma_roundtrip_linear)
  next
    case 2
    then show ?thesis by (simp add: gamma_roundtrip_power)
  next
    case 3
    then have "\<not> 0.0031308073 \<le> v"
      using gammaCorrect_above_threshold [of v] by auto
    then show ?thesis
      using 3 gamma_roundtrip_sliver [of v] by simp
  qed
qed

theorem gamma_roundtrip_within_tolerance_witness:
  "(0::real) \<le> 0.5 \<and> (0.5::real) \<le> 1
   \<and> \<bar>gammaUncorrect (gammaCorrect 0.5) - 0.5\<bar> \<le> 0.0000000024
   \<and> gammaUncorrect (gammaCorrect 0.5) = 0.5"
  using gamma_roundtrip_within_tolerance [of "0.5"] by simp

subsection \<open>CSS serialisation\<close>

text \<open>The digits of a number below 100000, place by place.\<close>

lemma decimal_digit_0: "decimal_digit 0 = CHR ''0''"
  by (simp add: decimal_digit_def)

lemma replicate_zeros:
  "replicate 4 c = [c, c, c, c]" "replicate 3 c = [c, c, c]" "replicate 2 c = [c, c]"
  by (simp_all add: eval_nat_numeral)

lemma decimal_digits_1: "n < 10 \<Longrightarrow> decimal_digits n = [decimal_digit n]"
  by (simp add: decimal_digits.simps)

lemma decimal_digits_step:
  "10 \<le> n \<Longrightarrow> decimal_digits n = decimal_digits (n div 10) @ [decimal_digit (n mod 10)]"
  by (subst decimal_digits.simps) simp

lemma decimal_digits_2:
  assumes "10 \<le> n" "n < 100"
  shows "decimal_digits n = [decimal_digit (n div 10), decimal_digit (n mod 10)]"
proof -
  have "n div 10 < 10" using assms by simp
  then show ?thesis
    using assms by (simp add: decimal_digits_step decimal_digits_1)
qed

lemma decimal_digits_3:
  assumes "100 \<le> n" "n < 1000"
  shows "decimal_digits n =
    [decimal_digit (n div 100), decimal_digit (n div 10 mod 10), decimal_digit (n mod 10)]"
proof -
  have "10 \<le> n div 10" "n div 10 < 100" using assms by simp_all
  then have "decimal_digits (n div 10) =
      [decimal_digit (n div 10 div 10), decimal_digit (n div 10 mod 10)]"
    by (rule decimal_digits_2)
  then show ?thesis
    using assms by (simp add: decimal_digits_step div_mult2_eq [symmetric])
qed

lemma decimal_digits_4:
  assumes "1000 \<le> n" "n < 10000"
  shows "decimal_digits n =
    [decimal_digit (n div 1000), decimal_digit (n div 100 mod 10),
     decimal_digit (n div 10 mod 10), decimal_digit (n mod 10)]"
proof -
  have "100 \<le> n div 10" "n div 10 < 1000" using assms by simp_all
  then have "decimal_digits (n div 10) =
      [decimal_digit (n div 10 div 100), decimal_digit (n div 10 div 10 mod 10),
       decimal_digit (n div 10 mod 10)]"
    by (rule decimal_digits_3)
  then show ?thesis
    using assms by (simp add: decimal_digits_step div_mult2_eq [symmetric])
qed

lemma decimal_digits_5:
  assumes "10000 \<le> n" "n < 100000"
  shows "decimal_digits n =
    [decimal_digit (n div 10000), decimal_digit (n div 1000 mod 10),
     decimal_digit (n div 100 mod 10),
     decimal_digit (n div 10 mod 10), decimal_digit (n mod 10)]"
proof -
  have "1000 \<le> n div 10" "n div 10 < 10000" using assms by simp_all
  then have "decimal_digits (n div 10) =
      [decimal_digit (n div 10 div 1000), decimal_digit (n div 10 div 100 mod 10),
       decimal_digit (n div 10 div 10 mod 10), decimal_digit (n div 10 mod 10)]"
    by (rule decimal_digits_4)
  then show ?thesis
    using assms by (simp add: decimal_digits_step div_mult2_eq [symmetric])
qed

lemma toFixed_4_eq_four_decimal_places:
  assumes "0 \<le> x" "x < 9"
  shows "toFixed x 4 = four_decimal_places x"
proof -
  define n where "n = nat \<lfloor>x * 10000 + 1 / 2\<rfloor>"
  have "x * 10000 + 1 / 2 < 100000" using assms by simp
  then have "\<lfloor>x * 10000 + 1 / 2\<rfloor> < 100000" by (subst floor_less_iff) simp
  then have n: "n < 100000" unfolding n_def by arith
  have f: "four_decimal_places x = [decimal_digit (n div 10000), CHR ''.'',
          decimal_digit (n div 1000 mod 10), decimal_digit (n div 100 mod 10),
          decimal_digit (n div 10 mod 10), decimal_digit (n mod 10)]"
    by (simp add: four_decimal_places_def n_def Let_def)
  have t: "toFixed x 4 =
     (let m = decimal_digits n;
          m = (if length m \<le> 4 then replicate (5 - length m) (CHR ''0'') @ m else m)
      in take (length m - 4) m @ ''.'' @ drop (length m - 4) m)"
    using assms(1) by (simp add: toFixed_def n_def Let_def)
  consider "n < 10" | "10 \<le> n" "n < 100" | "100 \<le> n" "n < 1000"
    | "1000 \<le> n" "n < 10000" | "10000 \<le> n" "n < 100000"
    using n by linarith
  then show ?thesis
  proof cases
    case 1
    then show ?thesis
      unfolding t f by (simp add: decimal_digits_1 Let_def decimal_digit_0 replicate_zeros)
  next
    case 2
    then show ?thesis
      unfolding t f by (simp add: decimal_digits_2 Let_def decimal_digit_0 replicate_zeros)
  next
    case 3
    then show ?thesis
      unfolding t f by (simp add: decimal_digits_3 Let_def decimal_digit_0 replicate_zeros)
  next
    case 4
    then show ?thesis
      unfolding t f by (simp add: decimal_digits_4 Let_def decimal_digit_0 replicate_zeros)
  next
    case 5
    then show ?thesis
      unfolding t f by (simp add: decimal_digits_5 Let_def)
  qed
qed

lemma css_channel_range:
  "0 \<le> Math_round (max 0 (min 255 c)) \<and> Math_round (max 0 (min 255 c)) \<le> 255"
proof -
  have "0 \<le> max 0 (min 255 c) + 1 / 2" "max 0 (min 255 c) + 1 / 2 < 256"
    by simp_all
  then show ?thesis
    unfolding Math_round_def by (simp add: le_floor_iff floor_le_iff)
qed

lemma Math_round_nearest: "\<bar>of_int (Math_round x) - x\<bar> \<le> 1 / 2"
  unfolding Math_round_def by linarith

lemma css_quotient_four_decimal_places:
  "toFixed (of_int (Math_round (max 0 (min 255 c))) / 255) 4 =
     four_decimal_places (of_int (Math_round (max 0 (min 255 c))) / 255)"
proof -
  have "0 \<le> Math_round (max 0 (min 255 c))" "Math_round (max 0 (min 255 c)) \<le> 255"
    using css_channel_range [of c] by simp_all
  then have "0 \<le> (of_int (Math_round (max 0 (min 255 c))) :: real) / 255"
    "(of_int (Math_round (max 0 (min 255 c))) :: real) / 255 < 9"
    by simp_all
  then show ?thesis
    by (rule toFixed_4_eq_four_decimal_places)
qed

lemma toFixed_1: "toFixed 1 4 = ''1.0000''"
  by (simp add: toFixed_def decimal_digits.simps decimal_digit_def Let_def)

lemma toFixed_100_255: "toFixed (20 / 51) 4 = ''0.3922''"
  by (simp add: toFixed_def decimal_digits.simps decimal_digit_def Let_def)

text \<open>
  C6. \<open>generateCSSColor\<close> takes of each channel the integer nearest to the channel
  clamped to the interval from 0 to 255, an integer from 0 to 255. For every colour space
  but P3 and Rec2020 it returns \<open>rgb(r, g, b)\<close> with the three integers; for P3 it
  returns \<open>color(display-p3 r/255 g/255 b/255)\<close> with each quotient printed to 4
  decimal places. For \<open>{255, 100, 100}\<close> these are \<open>rgb(255, 100, 100)\<close> and
  \<open>color(display-p3 1.0000 0.3922 0.3922)\<close>.
\<close>

theorem generateCSSColor_clamps_rounds_and_formats:
  "(let r = Math_round (max 0 (min 255 (rgb_r rgb)));
        g = Math_round (max 0 (min 255 (rgb_g rgb)));
        b = Math_round (max 0 (min 255 (rgb_b rgb)))
    in (\<forall>k \<in> {r, g, b}. 0 \<le> k \<and> k \<le> 255)
       \<and> \<bar>of_int r - max 0 (min 255 (rgb_r rgb))\<bar> \<le> 1 / 2
       \<and> \<bar>of_int g - max 0 (min 255 (rgb_g rgb))\<bar> \<le> 1 / 2
       \<and> \<bar>of_int b - max 0 (min 255 (rgb_b rgb))\<bar> \<le> 1 / 2
       \<and> (colorSpace \<notin> {P3, Rec2020} \<longrightarrow>
            generateCSSColor rgb colorSpace =
              ''rgb('' @ Number_toString r @ '', '' @ Number_toString g @ '', ''
                @ Number_toString b @ '')'')
       \<and> (colorSpace = P3 \<longrightarrow>
            generateCSSColor rgb colorSpace =
              ''color(display-p3 '' @ four_decimal_places (of_int r / 255) @ '' ''
                @ four_decimal_places (of_int g / 255) @ '' ''
                @ four_decimal_places (of_int b / 255) @ '')''))
   \<and> generateCSSColor \<lparr>rgb_r = 255, rgb_g = 100, rgb_b = 100\<rparr> sRGB = ''rgb(255, 100, 100)''
   \<and> generateCSSColor \<lparr>rgb_r = 255, rgb_g = 100, rgb_b = 100\<rparr> P3
       = ''color(display-p3 1.0000 0.3922 0.3922)''"
proof -
  have range: "0 \<le> Math_round (max 0 (min 255 c)) \<and> Math_round (max 0 (min 255 c)) \<le> 255" for c
    by (rule css_channel_range)
  have near: "\<bar>of_int (Math_round (max 0 (min 255 c))) - max 0 (min 255 c)\<bar> \<le> 1 / 2" for c
    by (rule Math_round_nearest)
  have default: "generateCSSColor rgb colorSpace =
      ''rgb('' @ Number_toString (Math_round (max 0 (min 255 (rgb_r rgb)))) @ '', ''
        @ Number_toString (Math_round (max 0 (min 255 (rgb_g rgb)))) @ '', ''
        @ Number_toString (Math_round (max 0 (min 255 (rgb_b rgb)))) @ '')''"
    if "colorSpace \<notin> {P3, Rec2020}"
    using that by (cases colorSpace) (simp_all add: generateCSSColor_def Let_def)
  have p3: "generateCSSColor rgb P3 =
      ''color(display-p3 ''
        @ four_decimal_places (of_int (Math_round (max 0 (min 255 (rgb_r rgb)))) / 255) @ '' ''
        @ four_decimal_places (of_int (Math_round (max 0 (min 255 (rgb_g rgb)))) / 255) @ '' ''
        @ four_decimal_places (of_int (Math_round (max 0 (min 255 (rgb_b rgb)))) / 255) @ '')''"
    by (simp add: generateCSSColor_def Let_def css_quotient_four_decimal_places)
  have e1: "generateCSSColor \<lparr>rgb_r = 255, rgb_g = 100, rgb_b = 100\<rparr> sRGB = ''rgb(255, 100, 100)''"
    by (simp add: generateCSSColor_def Math_round_def Number_toString_def
        decimal_digits.simps decimal_digit_def)
  have e2: "generateCSSColor \<lparr>rgb_r = 255, rgb_g = 100, rgb_b = 100\<rparr> P3
      = ''color(display-p3 1.0000 0.3922 0.3922)''"
    by (simp add: generateCSSColor_def Math_round_def toFixed_1 toFixed_100_255)
  show ?thesis
    unfolding Let_def using range near default p3 e1 e2 by blast
qed

theorem generateCSSColor_clamps_rounds_and_formats_witness:
  "generateCSSColor \<lparr>rgb_r = 300, rgb_g = - 5, rgb_b = 127.5\<rparr> LAB = ''rgb(255, 0, 128)''
   \<and> generateCSSColor \<lparr>rgb_r = 300, rgb_g = - 5, rgb_b = 127.5\<rparr> P3
       = ''color(display-p3 1.0000 0.0000 0.5020)''"
  using generateCSSColor_clamps_rounds_and_formats [of "\<lparr>rgb_r = 300, rgb_g = - 5, rgb_b = 127.5\<rparr>" LAB]
    generateCSSColor_clamps_rounds_and_formats [of "\<lparr>rgb_r = 300, rgb_g = - 5, rgb_b = 127.5\<rparr>" P3]
  by (simp add: Let_def Math_round_def Number_toString_def four_decimal_places_def
      decimal_digits.simps decimal_digit_def)

subsection \<open>LAB to OKLCH\<close>

text \<open>The arc tangent of a small positive number lies between its half and itself.\<close>

lemma arctan_le_self:
  assumes "0 \<le> x"
  shows "arctan x \<le> x"
proof -
  have "0 - arctan 0 \<le> x - arctan x"
  proof (rule DERIV_nonneg_imp_nondecreasing [where f = "\<lambda>x. x - arctan x"])
    show "0 \<le> x" by fact
  next
    fix t :: real
    have "((\<lambda>x. x - arctan x) has_real_derivative 1 - inverse (1 + t\<^sup>2)) (at t)"
      by (auto intro!: derivative_eq_intros)
    moreover have "inverse (1 + t\<^sup>2) \<le> 1"
      by (simp add: inverse_le_1_iff)
    ultimately show "\<exists>y. ((\<lambda>x. x - arctan x) has_real_derivative y) (at t) \<and> 0 \<le> y"
      by (intro exI [of _ "1 - inverse (1 + t\<^sup>2)"]) simp
  qed
  then show ?thesis by simp
qed

lemma half_le_arctan:
  assumes "0 \<le> x" "x \<le> 1"
  shows "x / 2 \<le> arctan x"
proof -
  have "arctan 0 - 0 / 2 \<le> arctan x - x / 2"
  proof (rule DERIV_nonneg_imp_nondecreasing [where f = "\<lambda>x. arctan x - x / 2"])
    show "0 \<le> x" by fact
  next
    fix t :: real
    assume t: "0 \<le> t" "t \<le> x"
    have "((\<lambda>x. arctan x - x / 2) has_real_derivative inverse (1 + t\<^sup>2) - 1 / 2) (at t)"
      by (auto intro!: derivative_eq_intros)
    moreover have "t\<^sup>2 \<le> 1"
      using t assms(2) by (simp add: power_le_one)
    then have "1 / 2 \<le> inverse (1 + t\<^sup>2)"
      by (simp add: inverse_eq_divide pos_le_divide_eq add_pos_nonneg)
    ultimately show "\<exists>y. ((\<lambda>x. arctan x - x / 2) has_real_derivative y) (at t) \<and> 0 \<le> y"
      by (intro exI [of _ "inverse (1 + t\<^sup>2) - 1 / 2"]) simp
  qed
  then show ?thesis by simp
qed

text \<open>Rounding a negative number of the normal range at most doubles or halves it.\<close>

lemma to_double_negative:
  assumes "x \<le> - (1 / 2 ^ 1022)"
  shows "2 * x \<le> to_double x" "to_double x \<le> x / 2"
proof -
  have x: "x < 0" "\<bar>x\<bar> = - x"
    using assms by (simp_all add: less_le_trans [of x "- (1 / 2 ^ 1022)" 0])
  have "2 powi (- 1022) \<le> \<bar>x\<bar>"
    using assms x by (simp add: two_powi_neg_nat [of 1022, simplified])
  then have "\<bar>to_double x - x\<bar> \<le> \<bar>x\<bar> / 2 ^ 53"
    by (rule to_double_error_normal)
  moreover have "\<bar>x\<bar> / 2 ^ 53 \<le> \<bar>x\<bar> / 2"
    by (intro divide_left_mono) simp_all
  ultimately have "\<bar>to_double x - x\<bar> \<le> - x / 2"
    using x by simp
  then show "2 * x \<le> to_double x" "to_double x \<le> x / 2"
    using x by linarith+
qed

text \<open>
  Just below 360 the doubles are \<open>2\<^sup>-\<^sup>4\<^sup>4\<close> apart: the sum of 360 and a negative
  number above \<open>-2\<^sup>-\<^sup>4\<^sup>6\<close> rounds to 360.
\<close>

lemma to_double_just_below_360:
  assumes "- (1 / 2 ^ 46) \<le> d" "d < 0"
  shows "to_double (d + 360) = 360"
proof -
  define y where "y = (d + 360) * 2 ^ 44"
  have y: "y = d * 2 ^ 44 + 360 * 2 ^ 44"
    by (simp add: y_def algebra_simps)
  have "- (1 / 2 ^ 46) * 2 ^ 44 \<le> d * 2 ^ 44" "d * 2 ^ 44 < 0 * 2 ^ 44"
    using assms by (simp_all add: mult_right_mono del: mult_minus_left)
  then have s: "- (1 / 4) \<le> d * 2 ^ 44" "d * 2 ^ 44 < 0"
    by simp_all
  have "to_double (d + 360) = of_int (round_ties_even ((d + 360) * 2 ^ 44)) / 2 ^ 44"
  proof (rule to_double_scaled)
    have "\<bar>d + 360\<bar> * 2 ^ 44 = y"
      using assms by (simp add: y_def abs_if)
    then show "2 ^ 52 \<le> \<bar>d + 360\<bar> * 2 ^ 44" "\<bar>d + 360\<bar> * 2 ^ 44 < 2 ^ 53"
      using s by (simp_all add: y)
  qed simp
  also have "round_ties_even ((d + 360) * 2 ^ 44) = 360 * 2 ^ 44"
  proof -
    have "round_ties_even y = (360 * 2 ^ 44 - 1) + 1"
      using s by (subst round_ties_even_eval [where f = "360 * 2 ^ 44 - 1"]) (simp_all add: y)
    then show ?thesis by (simp add: y_def)
  qed
  finally show ?thesis by simp
qed

text \<open>
  C9 does not hold of the code at the LAB colour \<open>{l:50, a:1, b:-2\<^sup>-\<^sup>7\<^sup>0}\<close>. The angle
  is a negative number of the order of \<open>-5e-20\<close> degrees, the source adds 360 to it, and the
  sum rounds to 360: the hue that \<open>LABToOKLCH\<close> returns is 360, outside the range from
  0 (included) to 360 (excluded) that the wrap-around of the source aims at.
\<close>

theorem LABToOKLCH_hue_reaches_360:
  "oklch_h (LABToOKLCH \<lparr>lab_l = 50, lab_a = 1, lab_b = - (1 / 2 ^ 70)\<rparr>) = 360"
proof -
  define w :: real where "w = 1 / 2 ^ 70"
  define t where "t = Math_atan2 (- w) 1"
  define m where "m = double_mul t 180"
  define h where "h = double_div m Math_PI"
  have w: "0 \<le> w" "w \<le> 1" by (simp_all add: w_def)
  \<comment> \<open>the angle, in radians\<close>
  have "atan2 (- w) 1 = - arctan w"
    by (simp add: atan2_def arctan_minus)
  moreover have "w / 2 \<le> arctan w" "arctan w \<le> w"
    using half_le_arctan [OF w] arctan_le_self [OF w(1)] .
  ultimately have a: "- w \<le> atan2 (- w) 1" "atan2 (- w) 1 \<le> - (w / 2)"
    by simp_all
  have "atan2 (- w) 1 \<le> - (1 / 2 ^ 1022)"
    using a(2) by (rule order_trans) (simp add: w_def)
  then have "2 * atan2 (- w) 1 \<le> t" "t \<le> atan2 (- w) 1 / 2"
    unfolding t_def Math_atan2_def by (rule to_double_negative)+
  then have t: "- (2 * w) \<le> t" "t \<le> - (w / 4)"
    using a by linarith+
  \<comment> \<open>times 180\<close>
  have "t * 180 \<le> - (1 / 2 ^ 1022)"
  proof -
    have "t * 180 \<le> - (w / 4) * 180" using t(2) by simp
    also have "\<dots> \<le> - (1 / 2 ^ 1022)" by (simp add: w_def)
    finally show ?thesis .
  qed
  then have "2 * (t * 180) \<le> m" "m \<le> t * 180 / 2"
    unfolding m_def double_mul_def by (rule to_double_negative)+
  then have m: "- (720 * w) \<le> m" "m \<le> - (45 / 2 * w)"
    using t by linarith+
  \<comment> \<open>divided by the double nearest to pi\<close>
  have "to_double 2 \<le> to_double pi" "to_double pi \<le> to_double 4"
    using pi_ge_two pi_less_4 by (simp_all add: to_double_mono)
  then have p: "2 \<le> Math_PI" "Math_PI \<le> 4"
    by (simp_all add: Math_PI_def to_double_numeral_small)
  define q where "q = m / Math_PI"
  have "m / 2 \<le> q"
    unfolding q_def using m(2) w(1) p by (intro divide_left_mono_neg) simp_all
  moreover have "q \<le> m / 4"
    unfolding q_def using m(2) w(1) p by (intro divide_left_mono_neg) simp_all
  ultimately have q: "- (360 * w) \<le> q" "q \<le> - (45 / 8 * w)"
    using m by linarith+
  have "q \<le> - (1 / 2 ^ 1022)"
    using q(2) by (rule order_trans) (simp add: w_def)
  then have "2 * q \<le> to_double q" "to_double q \<le> q / 2"
    by (rule to_double_negative)+
  moreover have "to_double q = h"
    by (simp add: h_def double_div_def q_def)
  ultimately have "- (720 * w) \<le> h" "h \<le> - (45 / 16 * w)"
    using q by linarith+
  moreover have "- (1 / 2 ^ 46) \<le> - (720 * w)" "- (45 / 16 * w) < 0"
    by (simp_all add: w_def)
  ultimately have h: "- (1 / 2 ^ 46) \<le> h" "h < 0"
    by linarith+
  then have "double_add h 360 = 360"
    unfolding double_add_def by (rule to_double_just_below_360)
  then show ?thesis
    using h(2) by (simp add: LABToOKLCH_def Let_def h_def m_def t_def w_def)
qed

text \<open>
  What does hold of the code. The exact angle lies between \<open>-\<pi>\<close> and \<open>\<pi>\<close>, so
  that the hue before the wrap-around is at most 181 in absolute value.
\<close>

lemma atan2_bounds: "- pi < atan2 y x \<and> atan2 y x \<le> pi"
proof -
  have lo: "- (pi / 2) < arctan (y / x)" and hi: "arctan (y / x) < pi / 2"
    by (rule arctan_lbound, rule arctan_ubound)
  have p: "0 < pi" by (rule pi_gt_zero)
  consider "0 < x" | "x < 0" "0 \<le> y" | "x < 0" "y < 0" | "x = 0"
    by linarith
  then show ?thesis
  proof cases
    case 1
    then have e: "atan2 y x = arctan (y / x)"
      by (simp add: atan2_def)
    show ?thesis unfolding e using lo hi p by linarith
  next
    case 2
    then have e: "atan2 y x = arctan (y / x) + pi"
      by (simp add: atan2_def)
    have "y / x \<le> 0" using 2 by (simp add: divide_nonneg_neg)
    then have "arctan (y / x) \<le> 0" by (simp add: arctan_le_zero_iff)
    then show ?thesis unfolding e using lo p by linarith
  next
    case 3
    then have e: "atan2 y x = arctan (y / x) - pi"
      by (simp add: atan2_def)
    have "0 < y / x" using 3 by (simp add: divide_neg_neg)
    then have "0 < arctan (y / x)" by (simp add: zero_less_arctan_iff)
    then show ?thesis unfolding e using hi p by linarith
  next
    case 4
    then have "atan2 y x = pi / 2 \<or> atan2 y x = - (pi / 2) \<or> atan2 y x = 0"
      by (simp add: atan2_def)
    then show ?thesis using p by linarith
  qed
qed

lemma Math_PI_bounds: "2 \<le> Math_PI" "Math_PI \<le> 4"
proof -
  have "to_double 2 \<le> to_double pi" "to_double pi \<le> to_double 4"
    using pi_ge_two pi_less_4 by (simp_all add: to_double_mono)
  then show "2 \<le> Math_PI" "Math_PI \<le> 4"
    by (simp_all add: Math_PI_def to_double_numeral_small)
qed

lemma hue_before_wrap:
  "\<bar>double_div (double_mul (Math_atan2 y x) 180) Math_PI\<bar> \<le> 181"
proof -
  define t where "t = Math_atan2 y x"
  define m where "m = double_mul t 180"
  define \<eta> :: real where "\<eta> = 2 powi (- 1075)"
  have \<eta>: "0 \<le> \<eta>" "\<eta> \<le> 1 / 2"
  proof -
    show "0 \<le> \<eta>" by (simp add: \<eta>_def)
    have "\<eta> \<le> 2 powi (- 1)"
      unfolding \<eta>_def by (intro power_int_increasing) simp_all
    then show "\<eta> \<le> 1 / 2" by (simp add: power_int_minus)
  qed
  have P: "2 \<le> Math_PI" "Math_PI \<le> 4"
    by (rule Math_PI_bounds)+
  have "\<bar>atan2 y x\<bar> \<le> pi"
    using atan2_bounds [of y x] by linarith
  then have t: "\<bar>t\<bar> \<le> Math_PI"
    unfolding t_def Math_atan2_def Math_PI_def by (rule to_double_abs_le)
  then have "\<bar>t * 180\<bar> \<le> Math_PI * 180"
    by (simp add: abs_mult)
  then have "\<bar>m\<bar> \<le> to_double (Math_PI * 180)"
    unfolding m_def double_mul_def by (rule to_double_abs_le)
  moreover have "\<bar>to_double (Math_PI * 180) - Math_PI * 180\<bar>
      \<le> \<bar>Math_PI * 180\<bar> / 9007199254740992 + \<eta>"
    unfolding \<eta>_def by (rule to_double_error_numeral)
  ultimately have "\<bar>m\<bar> \<le> Math_PI * 180 + Math_PI / 4 + \<eta>"
    using P by (simp add: abs_mult)
  also have "\<dots> \<le> Math_PI * 181"
    using P \<eta> by argo
  finally have "\<bar>m\<bar> / Math_PI \<le> 181"
    using P by (simp add: pos_divide_le_eq mult.commute)
  then have "\<bar>m / Math_PI\<bar> \<le> 181"
    using P by (simp add: abs_divide)
  then have "\<bar>to_double (m / Math_PI)\<bar> \<le> to_double 181"
    by (rule to_double_abs_le)
  then show ?thesis
    by (simp add: double_div_def m_def t_def to_double_numeral_small)
qed

text \<open>
  For a LAB colour with \<open>l\<close> between 0 and 100, the \<open>l\<close> that \<open>LABToOKLCH\<close>
  returns is the (rounded) quotient of the input's by 100 and lies between 0 and 1, the
  chroma is not negative, and the hue lies between 0 and 360, both included.
\<close>

lemma LABToOKLCH_ranges_up_to_rounding:
  assumes "0 \<le> lab_l lab" "lab_l lab \<le> 100"
  shows "0 \<le> oklch_l (LABToOKLCH lab) \<and> oklch_l (LABToOKLCH lab) \<le> 1
    \<and> oklch_l (LABToOKLCH lab) = double_div (lab_l lab) 100
    \<and> 0 \<le> oklch_c (LABToOKLCH lab)
    \<and> 0 \<le> oklch_h (LABToOKLCH lab) \<and> oklch_h (LABToOKLCH lab) \<le> 360"
proof -
  define h where "h = double_div (double_mul (Math_atan2 (lab_b lab) (lab_a lab)) 180) Math_PI"
  have l: "0 \<le> double_div (lab_l lab) 100" "double_div (lab_l lab) 100 \<le> 1"
    using assms to_double_nonneg [of "lab_l lab / 100"] to_double_mono [of "lab_l lab / 100" 1]
    by (simp_all add: double_div_def)
  have "0 \<le> double_add (double_mul (lab_a lab) (lab_a lab)) (double_mul (lab_b lab) (lab_b lab))"
    unfolding double_add_def double_mul_def by (intro to_double_nonneg add_nonneg_nonneg) simp_all
  then have "0 \<le> Math_sqrt (double_add (double_mul (lab_a lab) (lab_a lab))
      (double_mul (lab_b lab) (lab_b lab)))"
    unfolding Math_sqrt_def by (intro to_double_nonneg) simp
  then have c: "0 \<le> double_div (Math_sqrt (double_add (double_mul (lab_a lab) (lab_a lab))
      (double_mul (lab_b lab) (lab_b lab)))) 100"
    unfolding double_div_def by (intro to_double_nonneg) simp
  have hb: "\<bar>h\<bar> \<le> 181"
    unfolding h_def by (rule hue_before_wrap)
  have "0 \<le> double_add h 360 \<and> double_add h 360 \<le> 360" if "h < 0"
  proof -
    have "0 \<le> h + 360" "h + 360 \<le> 360"
      using hb that by linarith+
    then show ?thesis
      using to_double_nonneg [of "h + 360"] to_double_mono [of "h + 360" 360]
      by (simp add: double_add_def to_double_numeral_small)
  qed
  then have "0 \<le> (if h < 0 then double_add h 360 else h)"
    "(if h < 0 then double_add h 360 else h) \<le> 360"
    using hb by auto
  then show ?thesis
    unfolding LABToOKLCH_def Let_def h_def [symmetric] using l c by simp
qed

end
